theory Spec2Isabelle
  imports Main "HOL-Library.Multiset"
begin

section \<open>kvsheet.js: a key-value store kept in a two-column spreadsheet range\<close>

text \<open>
  The development embeds \<^verbatim>\<open>src/storage/kvGoogleStore.js\<close>: the identifier parser
  \<^verbatim>\<open>parseSheetId\<close>, the class \<^verbatim>\<open>KeyValueStore\<close> with \<^verbatim>\<open>load\<close> and \<^verbatim>\<open>save\<close>, the
  accessor wrapper \<^verbatim>\<open>wrapStoreInProxy\<close>, the credential lookup
  \<^verbatim>\<open>getServiceAccountCredentials\<close> and the factory \<^verbatim>\<open>createKeyValueStore\<close>.
  What the JavaScript does through the language or through a collaborator is
  either written out as a definition (property assignment on a plain object,
  \<^verbatim>\<open>Object.entries\<close>, the spreadsheet service) or taken as a parameter (numbers
  and their conversions, property access on a primitive value, the file system,
  the environment), and named after what it stands for.
\<close>

subsection \<open>Values\<close>

text \<open>
  The values a cell, a mapping entry or an assignment through the wrapper can
  carry: \<^verbatim>\<open>undefined\<close>, booleans, numbers and strings. The numbers are the
  platform's, an arbitrary type \<open>'n\<close>. \<^verbatim>\<open>null\<close>, objects and functions are not among
  these values.
\<close>

datatype 'n jsval = JUndefined | JBoolean bool | JNumber 'n | JString string

subsection \<open>Plain objects used as dictionaries\<close>

text \<open>
  \<^verbatim>\<open>this._data\<close> is a plain object created by \<^verbatim>\<open>{}\<close>. It is modelled by the list of
  its own properties, in the order in which they were created. Its prototype is
  \<^verbatim>\<open>Object.prototype\<close>, whose only accessor property is \<^verbatim>\<open>__proto__\<close>.
\<close>

type_synonym 'n js_object = "(string \<times> 'n jsval) list"

text \<open>An existing own property keeps its place; a new one goes to the end.\<close>

fun define_own :: "'n js_object \<Rightarrow> string \<Rightarrow> 'n jsval \<Rightarrow> 'n js_object" where
  "define_own [] k v = [(k, v)]"
| "define_own (p # ps) k v = (if fst p = k then (k, v) # ps else p # define_own ps k v)"

text \<open>
  The assignment \<^verbatim>\<open>obj[key] = value\<close>. For the name \<^verbatim>\<open>__proto__\<close> the assignment
  finds the setter inherited from \<^verbatim>\<open>Object.prototype\<close> and calls it; the setter
  changes the prototype when the value is an object or \<^verbatim>\<open>null\<close> and does nothing
  for any other value, so for the values of the model no property is created.
  Every other name becomes (or updates) an own property.
\<close>

definition assign_property :: "'n js_object \<Rightarrow> string \<Rightarrow> 'n jsval \<Rightarrow> 'n js_object" where
  "assign_property obj k v = (if k = ''__proto__'' then obj else define_own obj k v)"

text \<open>The read \<^verbatim>\<open>obj[key]\<close> of an own property; a missing one reads as \<^verbatim>\<open>undefined\<close>.\<close>

definition get_own :: "'n js_object \<Rightarrow> string \<Rightarrow> 'n jsval" where
  "get_own obj k = (case map_of obj k of None \<Rightarrow> JUndefined | Some v \<Rightarrow> v)"

text \<open>
  A property name is an array index when it is the canonical decimal form of an
  integer from 0 to \<open>2\<^sup>3\<^sup>2 - 2\<close>.
\<close>

definition index_value :: "string \<Rightarrow> int" where
  "index_value k = foldl (\<lambda>a c. 10 * a + (of_char c - 48)) 0 k"

definition is_array_index :: "string \<Rightarrow> bool" where
  "is_array_index k \<longleftrightarrow>
     k \<noteq> [] \<and> list_all (\<lambda>c. c \<in> set ''0123456789'') k
     \<and> (k = ''0'' \<or> hd k \<noteq> CHR ''0'') \<and> index_value k \<le> 4294967294"

text \<open>
  \<^verbatim>\<open>Object.entries\<close> of such an object: the own properties as \<open>(key, value)\<close> pairs,
  array indices first in ascending numeric order, then the other names in
  creation order.
\<close>

definition Object_entries :: "'n js_object \<Rightarrow> (string \<times> 'n jsval) list" where
  "Object_entries obj =
     sort_key (\<lambda>p. index_value (fst p)) (filter (\<lambda>p. is_array_index (fst p)) obj)
     @ filter (\<lambda>p. \<not> is_array_index (fst p)) obj"

subsection \<open>Errors, members and what the language provides\<close>

text \<open>
  \<open>Error m\<close> is an error the repository's code throws itself with message \<open>m\<close>;
  \<open>Raised l\<close> is an error raised by the language or a collaborator (a
  \<^verbatim>\<open>TypeError\<close>, the spreadsheet service, the file system, \<^verbatim>\<open>JSON.parse\<close>),
  labelled \<open>l\<close>.
\<close>

datatype js_error = Error string | Raised string

record credentials =
  client_email :: string
  private_key :: string

text \<open>
  What a property read on the adapter can yield: a value, the mapping object, the
  authenticated client, a member of the class prototype (a method or the
  constructor), a built-in function, or the prototype object that the
  \<^verbatim>\<open>__proto__\<close> getter returns.
\<close>

datatype 'n member =
    Value "'n jsval"
  | Data_object "'n js_object"
  | Auth_client credentials
  | Class_member string
  | Builtin string
  | Prototype_object

text \<open>
  The language's built-in operations that the code reaches and that are taken as
  given: \<^verbatim>\<open>Number(text)\<close>; the conversion of a number to a string, as a template
  literal and a property key apply it; the truth of a number;
  \<^verbatim>\<open>Object.entries\<close> of a primitive value other than \<^verbatim>\<open>undefined\<close>; and the read
  \<^verbatim>\<open>v[name]\<close> on such a value \<open>v\<close> for a name that \<^verbatim>\<open>Object.prototype\<close> does not
  have. Every theorem below holds for whatever these are.
\<close>

record 'n builtins =
  Number :: "string \<Rightarrow> 'n"
  Number_toString :: "'n \<Rightarrow> string"
  Number_ToBoolean :: "'n \<Rightarrow> bool"
  entries_of_primitive :: "'n jsval \<Rightarrow> (string \<times> 'n jsval) list"
  property_of_primitive :: "'n jsval \<Rightarrow> string \<Rightarrow> 'n member"

text \<open>\<^verbatim>\<open>ToString\<close> and \<^verbatim>\<open>ToBoolean\<close> on the values of the model.\<close>

definition ToString :: "'n builtins \<Rightarrow> 'n jsval \<Rightarrow> string" where
  "ToString L v =
     (case v of
        JUndefined \<Rightarrow> ''undefined''
      | JBoolean b \<Rightarrow> if b then ''true'' else ''false''
      | JNumber n \<Rightarrow> Number_toString L n
      | JString s \<Rightarrow> s)"

definition ToBoolean :: "'n builtins \<Rightarrow> 'n jsval \<Rightarrow> bool" where
  "ToBoolean L v =
     (case v of
        JUndefined \<Rightarrow> False
      | JBoolean b \<Rightarrow> b
      | JNumber n \<Rightarrow> Number_ToBoolean L n
      | JString s \<Rightarrow> s \<noteq> [])"

subsection \<open>The class KeyValueStore\<close>

text \<open>
  A field that the constructor fills with an object holds that object until an
  assignment through the wrapper replaces it by a value.
\<close>

datatype ('a, 'n) slot = Held 'a | Replaced "'n jsval"

text \<open>
  The fields \<^verbatim>\<open>_authClient\<close>, \<^verbatim>\<open>_sheetId\<close>, \<^verbatim>\<open>_sheetName\<close>, \<^verbatim>\<open>_startX\<close>, \<^verbatim>\<open>_startY\<close> and
  \<^verbatim>\<open>_data\<close>. \<open>own_extra\<close> holds the own properties the instance acquires later
  under names it first inherited from its prototypes.
\<close>

record 'n KeyValueStore =
  priv_authClient :: "(credentials, 'n) slot"
  priv_sheetId :: "'n jsval"
  priv_sheetName :: "'n jsval"
  priv_startX :: "'n jsval"
  priv_startY :: "'n jsval"
  priv_data :: "('n js_object, 'n) slot"
  own_extra :: "'n js_object"

text \<open>
  The constructor, with arguments of the types its documentation gives (the sheet
  name is optional: \<open>None\<close> is \<^verbatim>\<open>undefined\<close>). Its warning on the console when no
  sheet name is given is output only and is not part of the state.
\<close>

definition new_KeyValueStore ::
  "credentials \<Rightarrow> string \<Rightarrow> string option \<Rightarrow> string \<Rightarrow> 'n \<Rightarrow> 'n KeyValueStore" where
  "new_KeyValueStore authClient sheetId sheetName startX startY =
     \<lparr>priv_authClient = Held authClient, priv_sheetId = JString sheetId,
      priv_sheetName = (case sheetName of None \<Rightarrow> JUndefined | Some n \<Rightarrow> JString n),
      priv_startX = JString startX, priv_startY = JNumber startY,
      priv_data = Held [], own_extra = []\<rparr>"

subsection \<open>The remote service\<close>

type_synonym 'n row = "'n jsval list"

text \<open>
  The calls the code makes to the service: \<^verbatim>\<open>authClient.authorize()\<close>, and
  \<^verbatim>\<open>spreadsheets.values.get\<close>, \<^verbatim>\<open>clear\<close> and \<^verbatim>\<open>update\<close>, each with the client
  (\<^verbatim>\<open>auth: this._authClient\<close>), the \<^verbatim>\<open>spreadsheetId\<close> and the \<^verbatim>\<open>range\<close> and, for
  \<^verbatim>\<open>update\<close>, \<^verbatim>\<open>valueInputOption\<close> and the rows of the request body.
\<close>

datatype 'n request =
    Authorize credentials
  | Get "(credentials, 'n) slot" "'n jsval" string
  | Clear "(credentials, 'n) slot" "'n jsval" string
  | Update "(credentials, 'n) slot" "'n jsval" string string "'n row list"

text \<open>
  The service is not part of the repository. It is modelled as a store that keeps,
  for each document and range string, the rows written there (\<open>None\<close>: the
  response carries no \<^verbatim>\<open>values\<close>), a record of the requests received, and the
  requests it rejects. Two different range strings are kept apart, also when they
  would address overlapping cells. An \<^verbatim>\<open>update\<close> writes the cells it is given and
  leaves every other cell of the range as it is; a \<^verbatim>\<open>clear\<close> empties the range.
\<close>

fun overlay_rows :: "'n row list \<Rightarrow> 'n row list \<Rightarrow> 'n row list" where
  "overlay_rows [] olds = olds"
| "overlay_rows (new # news) [] = new # overlay_rows news []"
| "overlay_rows (new # news) (old # olds) =
     (new @ drop (length new) old) # overlay_rows news olds"

record 'n remote =
  content :: "'n jsval \<times> string \<Rightarrow> 'n row list option"
  failing :: "'n request \<Rightarrow> js_error option"
  requests :: "'n request list"

definition call :: "'n request \<Rightarrow> 'n remote \<Rightarrow> (js_error + 'n row list option) \<times> 'n remote" where
  "call q r =
     (let r1 = r\<lparr>requests := requests r @ [q]\<rparr>
      in case failing r q of
           Some e \<Rightarrow> (Inl e, r1)
         | None \<Rightarrow>
             (case q of
                Authorize c \<Rightarrow> (Inr None, r1)
              | Get a i rg \<Rightarrow> (Inr (content r (i, rg)), r1)
              | Clear a i rg \<Rightarrow> (Inr None, r1\<lparr>content := (content r)((i, rg) := None)\<rparr>)
              | Update a i rg opt rows \<Rightarrow>
                  (Inr None,
                   r1\<lparr>content := (content r)((i, rg) \<mapsto>
                        overlay_rows rows
                          (case content r (i, rg) of None \<Rightarrow> [] | Some old \<Rightarrow> old))\<rparr>)))"

subsection \<open>load and save\<close>

text \<open>
  One turn of the loop in \<^verbatim>\<open>load\<close>: \<^verbatim>\<open>key = row[0]\<close>, \<^verbatim>\<open>value = row[1] ?? ''\<close>,
  \<^verbatim>\<open>this._data[key] = value\<close>. A cell beyond the end of the row reads as
  \<^verbatim>\<open>undefined\<close>; the key is converted to a property name.
\<close>

definition row_key :: "'n row \<Rightarrow> 'n jsval" where
  "row_key rw = (case rw of [] \<Rightarrow> JUndefined | c # _ \<Rightarrow> c)"

definition row_value :: "'n row \<Rightarrow> 'n jsval" where
  "row_value rw =
     (case rw of
        _ # c # _ \<Rightarrow> (if c = JUndefined then JString [] else c)
      | _ \<Rightarrow> JString [])"

definition store_row :: "'n builtins \<Rightarrow> 'n js_object \<Rightarrow> 'n row \<Rightarrow> 'n js_object" where
  "store_row L obj rw = assign_property obj (ToString L (row_key rw)) (row_value rw)"

text \<open>
  \<^verbatim>\<open>load\<close>: the range is a template literal over the fields; one \<^verbatim>\<open>get\<close> request;
  when it is rejected the error propagates and the mapping is untouched,
  otherwise \<^verbatim>\<open>this._data\<close> becomes a new object filled from the rows.
\<close>

definition load ::
  "'n builtins \<Rightarrow> 'n KeyValueStore \<Rightarrow> 'n remote \<Rightarrow> (js_error + 'n KeyValueStore) \<times> 'n remote" where
  "load L this r =
     (let rangePrefix = (if ToBoolean L (priv_sheetName this)
                         then ToString L (priv_sheetName this) @ ''!'' else []);
          range = rangePrefix @ ToString L (priv_startX this) @ ToString L (priv_startY this)
                    @ '':B''
      in case call (Get (priv_authClient this) (priv_sheetId this) range) r of
           (Inl e, r1) \<Rightarrow> (Inl e, r1)
         | (Inr values, r1) \<Rightarrow>
             (let rows = (case values of None \<Rightarrow> [] | Some vs \<Rightarrow> vs)
              in (Inr (this\<lparr>priv_data := Held (foldl (store_row L) [] rows)\<rparr>), r1)))"

text \<open>
  \<^verbatim>\<open>Object.entries(this._data)\<close>, whatever the field holds; on \<^verbatim>\<open>undefined\<close> it
  raises a \<^verbatim>\<open>TypeError\<close>.
\<close>

definition data_entries ::
  "'n builtins \<Rightarrow> ('n js_object, 'n) slot \<Rightarrow> js_error + (string \<times> 'n jsval) list" where
  "data_entries L d =
     (case d of
        Held obj \<Rightarrow> Inr (Object_entries obj)
      | Replaced v \<Rightarrow>
          if v = JUndefined then Inl (Raised ''TypeError'') else Inr (entries_of_primitive L v))"

text \<open>
  \<^verbatim>\<open>save\<close>: the rows are the entries of \<^verbatim>\<open>this._data\<close>, each entry the two-cell row
  of its key and its value, computed before anything is sent; then one \<^verbatim>\<open>clear\<close>
  and, if that succeeds, one \<^verbatim>\<open>update\<close> with \<^verbatim>\<open>valueInputOption: 'RAW'\<close>. The
  result is the error that propagates, if any.
\<close>

definition save ::
  "'n builtins \<Rightarrow> 'n KeyValueStore \<Rightarrow> 'n remote \<Rightarrow> js_error option \<times> 'n remote" where
  "save L this r =
     (let rangePrefix = (if ToBoolean L (priv_sheetName this)
                         then ToString L (priv_sheetName this) @ ''!'' else []);
          range = rangePrefix @ ToString L (priv_startX this) @ ToString L (priv_startY this)
                    @ '':B''
      in case data_entries L (priv_data this) of
           Inl e \<Rightarrow> (Some e, r)
         | Inr entries \<Rightarrow>
             (let rows = map (\<lambda>(k, v). [JString k, v]) entries
              in case call (Clear (priv_authClient this) (priv_sheetId this) range) r of
                   (Inl e, r1) \<Rightarrow> (Some e, r1)
                 | (Inr _, r1) \<Rightarrow>
                     (case call (Update (priv_authClient this) (priv_sheetId this) range
                                   ''RAW'' rows) r1 of
                        (Inl e, r2) \<Rightarrow> (Some e, r2)
                      | (Inr _, r2) \<Rightarrow> (None, r2))))"

text \<open>
  The range of the specification, \<^verbatim>\<open>[sheetName!]<startColumn><startRow>:B\<close>, over the
  three coordinates as the fields hold them: the sheet name and an exclamation
  mark when a name is set (the code tests the name for truth, so the empty string
  counts as unset, as \<^verbatim>\<open>undefined\<close> does), the start column, the start row, each
  as the language converts it to a string, and the fixed end \<^verbatim>\<open>:B\<close>.
\<close>

definition range_formula :: "'n builtins \<Rightarrow> 'n jsval \<Rightarrow> 'n jsval \<Rightarrow> 'n jsval \<Rightarrow> string" where
  "range_formula L name column rownum =
     (if ToBoolean L name then ToString L name @ ''!'' else [])
     @ ToString L column @ ToString L rownum @ '':B''"

text \<open>
  A list of own properties stands for a mapping the adapter can hold when no name
  occurs twice and \<^verbatim>\<open>__proto__\<close> is not among the names: this is what property
  assignment on an object created by \<^verbatim>\<open>{}\<close> produces.
\<close>

definition plain_object :: "'n js_object \<Rightarrow> bool" where
  "plain_object obj \<longleftrightarrow> distinct (map fst obj) \<and> ''__proto__'' \<notin> set (map fst obj)"

subsection \<open>The accessor wrapper\<close>

text \<open>
  \<^verbatim>\<open>prop in target\<close> looks at the instance and along its prototype chain: the six
  fields, the own properties acquired later, the members of
  \<^verbatim>\<open>KeyValueStore.prototype\<close> and those of \<^verbatim>\<open>Object.prototype\<close>. Property names
  are strings.
\<close>

definition field_names :: "string list" where
  "field_names =
     [''_authClient'', ''_sheetId'', ''_sheetName'', ''_startX'', ''_startY'', ''_data'']"

definition class_prototype_names :: "string list" where
  "class_prototype_names = [''constructor'', ''load'', ''save'']"

definition Object_prototype_names :: "string list" where
  "Object_prototype_names =
     [''constructor'', ''__defineGetter__'', ''__defineSetter__'', ''hasOwnProperty'',
      ''__lookupGetter__'', ''__lookupSetter__'', ''isPrototypeOf'',
      ''propertyIsEnumerable'', ''toString'', ''valueOf'', ''__proto__'',
      ''toLocaleString'']"

definition in_target :: "string \<Rightarrow> 'n KeyValueStore \<Rightarrow> bool" where
  "in_target prop target \<longleftrightarrow>
     prop \<in> set field_names \<or> prop \<in> set (map fst (own_extra target))
     \<or> prop \<in> set class_prototype_names \<or> prop \<in> set Object_prototype_names"

text \<open>
  \<^verbatim>\<open>Reflect.get(target, prop, receiver)\<close>: own properties first, then the class
  prototype, then \<^verbatim>\<open>Object.prototype\<close>.
\<close>

definition Reflect_get :: "string \<Rightarrow> 'n KeyValueStore \<Rightarrow> 'n member" where
  "Reflect_get prop target =
     (if prop = ''_authClient'' then
        (case priv_authClient target of Held c \<Rightarrow> Auth_client c | Replaced v \<Rightarrow> Value v)
      else if prop = ''_sheetId'' then Value (priv_sheetId target)
      else if prop = ''_sheetName'' then Value (priv_sheetName target)
      else if prop = ''_startX'' then Value (priv_startX target)
      else if prop = ''_startY'' then Value (priv_startY target)
      else if prop = ''_data'' then
        (case priv_data target of Held obj \<Rightarrow> Data_object obj | Replaced v \<Rightarrow> Value v)
      else if prop \<in> set (map fst (own_extra target)) then Value (get_own (own_extra target) prop)
      else if prop \<in> set class_prototype_names then Class_member prop
      else if prop = ''__proto__'' then Prototype_object
      else if prop \<in> set Object_prototype_names then Builtin prop
      else Value JUndefined)"

text \<open>
  \<^verbatim>\<open>Reflect.set(target, prop, value, receiver)\<close> with the wrapper as receiver. An own
  field takes the value, whatever it held. \<^verbatim>\<open>__proto__\<close> is an accessor: its setter
  ignores a value that is neither an object nor \<^verbatim>\<open>null\<close>. Every other inherited
  member is a writable data property, so the assignment defines an own property
  of that name on the instance (the wrapper has no \<^verbatim>\<open>defineProperty\<close> trap and
  forwards to the target).
\<close>

definition Reflect_set :: "string \<Rightarrow> 'n jsval \<Rightarrow> 'n KeyValueStore \<Rightarrow> 'n KeyValueStore" where
  "Reflect_set prop v target =
     (if prop = ''_authClient'' then target\<lparr>priv_authClient := Replaced v\<rparr>
      else if prop = ''_sheetId'' then target\<lparr>priv_sheetId := v\<rparr>
      else if prop = ''_sheetName'' then target\<lparr>priv_sheetName := v\<rparr>
      else if prop = ''_startX'' then target\<lparr>priv_startX := v\<rparr>
      else if prop = ''_startY'' then target\<lparr>priv_startY := v\<rparr>
      else if prop = ''_data'' then target\<lparr>priv_data := Replaced v\<rparr>
      else if prop \<in> set (map fst (own_extra target)) then
        target\<lparr>own_extra := define_own (own_extra target) prop v\<rparr>
      else if prop \<in> set class_prototype_names then
        target\<lparr>own_extra := define_own (own_extra target) prop v\<rparr>
      else if prop = ''__proto__'' then target
      else target\<lparr>own_extra := define_own (own_extra target) prop v\<rparr>)"

text \<open>
  The two traps of \<^verbatim>\<open>wrapStoreInProxy\<close>. In the fallback branch the name is not on
  the target, hence not on \<^verbatim>\<open>Object.prototype\<close> either, and \<^verbatim>\<open>target._data[prop]\<close>
  reads or writes an own property of the mapping object. When \<^verbatim>\<open>_data\<close> has been
  replaced by a value, a read or a write on \<^verbatim>\<open>undefined\<close> raises a \<^verbatim>\<open>TypeError\<close>;
  on another value the read is the language's read on that value and the write
  is without effect (the handler is not strict-mode code).
\<close>

definition wrapper_get ::
  "'n builtins \<Rightarrow> string \<Rightarrow> 'n KeyValueStore \<Rightarrow> js_error + 'n member" where
  "wrapper_get L prop target =
     (if in_target prop target then Inr (Reflect_get prop target)
      else (case priv_data target of
              Held obj \<Rightarrow> Inr (Value (get_own obj prop))
            | Replaced w \<Rightarrow>
                if w = JUndefined then Inl (Raised ''TypeError'')
                else Inr (property_of_primitive L w prop)))"

definition wrapper_set ::
  "string \<Rightarrow> 'n jsval \<Rightarrow> 'n KeyValueStore \<Rightarrow> js_error + 'n KeyValueStore" where
  "wrapper_set prop v target =
     (if in_target prop target then Inr (Reflect_set prop v target)
      else (case priv_data target of
              Held obj \<Rightarrow> Inr (target\<lparr>priv_data := Held (assign_property obj prop v)\<rparr>)
            | Replaced w \<Rightarrow>
                if w = JUndefined then Inl (Raised ''TypeError'') else Inr target))"

subsection \<open>The identifier parser\<close>

text \<open>
  The character class \<^verbatim>\<open>[a-zA-Z0-9-_]\<close>. The pattern and the class are ASCII, so
  matching bytes of the UTF-8 text finds what matching UTF-16 code units finds.
\<close>

definition id_char :: "char \<Rightarrow> bool" where
  "id_char c \<longleftrightarrow>
     c \<in> set ''abcdefghijklmnopqrstuvwxyzABCDEFGHIJKLMNOPQRSTUVWXYZ0123456789-_''"

text \<open>
  The regular expression \<^verbatim>\<open>/\/spreadsheets\/d\/([a-zA-Z0-9-_]+)/\<close> tried at the start
  of a string: the literal, then the longest non-empty run of class characters,
  which is the capture group.
\<close>

definition match_here :: "string \<Rightarrow> string option" where
  "match_here s =
     (if take 16 s = ''/spreadsheets/d/'' \<and> takeWhile id_char (drop 16 s) \<noteq> []
      then Some (takeWhile id_char (drop 16 s)) else None)"

text \<open>\<^verbatim>\<open>String.prototype.match\<close>: the match at the leftmost position that has one.\<close>

fun regex_match :: "string \<Rightarrow> string option" where
  "regex_match [] = match_here []"
| "regex_match (c # cs) =
     (case match_here (c # cs) of Some g \<Rightarrow> Some g | None \<Rightarrow> regex_match cs)"

definition parseSheetId :: "string \<Rightarrow> string" where
  "parseSheetId sheetIdOrUrl =
     (case regex_match sheetIdOrUrl of
        Some g \<Rightarrow> if g \<noteq> [] then g else sheetIdOrUrl
      | None \<Rightarrow> sheetIdOrUrl)"

text \<open>
  An occurrence of the segment in the words of the specification: the text
  \<^verbatim>\<open>/spreadsheets/d/\<close> followed by an identifier of at least one character over
  letters, digits, hyphen and underscore.
\<close>

definition segment_at :: "string \<Rightarrow> string \<Rightarrow> string \<Rightarrow> string \<Rightarrow> bool" where
  "segment_at s before ident rest \<longleftrightarrow>
     s = before @ ''/spreadsheets/d/'' @ ident @ rest \<and> ident \<noteq> [] \<and> list_all id_char ident"

subsection \<open>Credentials and the factory\<close>

text \<open>
  What the code takes from its host: \<^verbatim>\<open>process.env\<close>, \<^verbatim>\<open>path.resolve\<close>, the files
  (\<open>None\<close>: \<^verbatim>\<open>fs.existsSync\<close> is false; otherwise what \<^verbatim>\<open>fs.readFileSync\<close> yields,
  the text or the error it raises) and \<^verbatim>\<open>JSON.parse\<close> on a credentials text. These
  belong to the platform and are parameters.
\<close>

record host =
  env :: "string \<Rightarrow> string option"
  path_resolve :: "string \<Rightarrow> string"
  files :: "string \<Rightarrow> (js_error + string) option"
  JSON_parse :: "string \<Rightarrow> js_error + credentials"

datatype fs_access = ExistsSync string | ReadFileSync string

record credential_options =
  clientEmail :: "string option"
  privateKey :: "string option"
  serviceAccountCredentials :: "string option"

text \<open>
  \<^verbatim>\<open>getServiceAccountCredentials\<close>, with the file-system accesses it makes, in
  order. \<^verbatim>\<open>path.resolve\<close> raises a type error when the path is \<^verbatim>\<open>undefined\<close>.
\<close>

definition getServiceAccountCredentials ::
  "host \<Rightarrow> credential_options \<Rightarrow> fs_access list \<times> (js_error + credentials)" where
  "getServiceAccountCredentials h options =
     (let fromFile =
            (case serviceAccountCredentials options of
               None \<Rightarrow> ([], Inl (Raised ''ERR_INVALID_ARG_TYPE''))
             | Some p \<Rightarrow>
                 (let jsonPath = path_resolve h p
                  in case files h jsonPath of
                       None \<Rightarrow>
                         ([ExistsSync jsonPath],
                          Inl (Error (''Cannot find valid service account credentials. '' @
                            ''Provide either (clientEmail, privateKey) or a valid serviceAccountCredentials file.'')))
                     | Some (Inl e) \<Rightarrow> ([ExistsSync jsonPath, ReadFileSync jsonPath], Inl e)
                     | Some (Inr credentialsJson) \<Rightarrow>
                         ([ExistsSync jsonPath, ReadFileSync jsonPath],
                          JSON_parse h credentialsJson)))
      in case clientEmail options of
           None \<Rightarrow> fromFile
         | Some e \<Rightarrow>
             if e = [] then fromFile
             else (case privateKey options of
                     None \<Rightarrow> fromFile
                   | Some k \<Rightarrow>
                       if k = [] then fromFile
                       else ([], Inr \<lparr>client_email = e, private_key = k\<rparr>)))"

record 'n factory_options = credential_options +
  sheetId :: "string option"
  sheetName :: "string option"
  startX :: "string option"
  startY :: "'n option"

text \<open>
  \<^verbatim>\<open>createKeyValueStore\<close>. A default of the destructuring applies when the option
  is \<^verbatim>\<open>undefined\<close>; \<^verbatim>\<open>a || b\<close> on strings takes \<open>b\<close> when \<open>a\<close> is missing or empty.
  The store returned is the target of the wrapper, to be used through
  \<open>wrapper_get\<close> and \<open>wrapper_set\<close>.
\<close>

definition or_else :: "string option \<Rightarrow> string \<Rightarrow> string" where
  "or_else a b = (case a of None \<Rightarrow> b | Some v \<Rightarrow> if v = [] then b else v)"

text \<open>The default \<open>b\<close> of a destructured option \<open>a\<close>, itself possibly \<^verbatim>\<open>undefined\<close>.\<close>

definition default_to :: "string option \<Rightarrow> string option \<Rightarrow> string option" where
  "default_to a b = (case a of None \<Rightarrow> b | Some v \<Rightarrow> Some v)"

text \<open>The truth of an optional string: it is there and it is not empty.\<close>

definition truthy :: "string option \<Rightarrow> bool" where
  "truthy a = (case a of None \<Rightarrow> False | Some v \<Rightarrow> v \<noteq> [])"

definition createKeyValueStore ::
  "'n builtins \<Rightarrow> host \<Rightarrow> 'n factory_options \<Rightarrow> 'n remote \<Rightarrow>
     (js_error + 'n KeyValueStore) \<times> 'n remote" where
  "createKeyValueStore L h options r =
     (let sheetId0 = default_to (sheetId options) (env h ''SHEET_ID'');
          sheetName0 = default_to (sheetName options) (env h ''SHEET_NAME'');
          startX0 = (case startX options of None \<Rightarrow> or_else (env h ''START_X'') ''A'' | Some v \<Rightarrow> v);
          startY0 = (case startY options of
                       None \<Rightarrow> Number L (or_else (env h ''START_Y'') ''1'')
                     | Some n \<Rightarrow> n);
          serviceAccountCredentials0 =
            (case serviceAccountCredentials options of
               None \<Rightarrow> or_else (env h ''SERVICE_ACCOUNT_CREDENTIALS'') ''./service_account.json''
             | Some v \<Rightarrow> v);
          clientEmail0 = default_to (clientEmail options) (env h ''GOOGLE_CLIENT_EMAIL'');
          privateKey0 = default_to (privateKey options) (env h ''GOOGLE_PRIVATE_KEY'')
      in case sheetId0 of
           None \<Rightarrow> (Inl (Error ''No SHEET_ID found. Provide it via options or .env.''), r)
         | Some i \<Rightarrow>
             if i = [] then (Inl (Error ''No SHEET_ID found. Provide it via options or .env.''), r)
             else
               (let sheetId1 = parseSheetId i
                in case snd (getServiceAccountCredentials h
                              \<lparr>clientEmail = clientEmail0, privateKey = privateKey0,
                               serviceAccountCredentials = Some serviceAccountCredentials0\<rparr>) of
                     Inl e \<Rightarrow> (Inl e, r)
                   | Inr creds \<Rightarrow>
                       (let authClient = \<lparr>client_email = client_email creds,
                                          private_key = private_key creds\<rparr>
                        in case call (Authorize authClient) r of
                             (Inl e, r1) \<Rightarrow> (Inl e, r1)
                           | (Inr _, r1) \<Rightarrow>
                               load L (new_KeyValueStore authClient sheetId1 sheetName0 startX0
                                         startY0) r1)))"

subsection \<open>States for the examples\<close>

text \<open>Decimal digits of a natural number, most significant first.\<close>

fun digits_of :: "nat \<Rightarrow> string" where
  "digits_of n =
     (if n < 10 then [''0123456789'' ! n]
      else digits_of (n div 10) @ [''0123456789'' ! (n mod 10)])"

declare digits_of.simps [simp del]

text \<open>
  An instance of the language's part for the examples. Its numbers are natural
  numbers, read from and printed as decimal numerals, as JavaScript reads and
  prints the small non-negative integers the examples use; zero is the false
  one. The two operations on primitive values yield nothing; no example reaches
  them.
\<close>

definition example_builtins :: "nat builtins" where
  "example_builtins =
     \<lparr>Number = (\<lambda>t. nat (index_value t)), Number_toString = digits_of, Number_ToBoolean = (\<lambda>n. n \<noteq> 0),
      entries_of_primitive = (\<lambda>v. []), property_of_primitive = (\<lambda>v p. Value JUndefined)\<rparr>"

text \<open>
  A service that rejects nothing and has seen no request yet, holding the given
  rows, and an adapter on the default sheet of document \<^verbatim>\<open>doc\<close>, at \<^verbatim>\<open>A1\<close>, holding
  the given mapping.
\<close>

definition reliable_remote :: "(nat jsval \<times> string \<Rightarrow> nat row list option) \<Rightarrow> nat remote" where
  "reliable_remote c = \<lparr>content = c, failing = (\<lambda>q. None), requests = []\<rparr>"

definition example_client :: credentials where
  "example_client = \<lparr>client_email = ''bot@example.org'', private_key = ''key''\<rparr>"

definition example_store :: "nat js_object \<Rightarrow> nat KeyValueStore" where
  "example_store d =
     (new_KeyValueStore example_client ''doc'' None ''A'' 1)\<lparr>priv_data := Held d\<rparr>"

text \<open>
  A host with an empty environment and the given files, where \<^verbatim>\<open>path.resolve\<close>
  leaves a path as it is and every credentials text parses to the same pair.
\<close>

definition example_host :: "(string \<Rightarrow> (js_error + string) option) \<Rightarrow> host" where
  "example_host fs =
     \<lparr>env = (\<lambda>n. None), path_resolve = (\<lambda>p. p), files = fs,
      JSON_parse = (\<lambda>t. Inr \<lparr>client_email = ''file@example.org'', private_key = ''filekey''\<rparr>)\<rparr>"

definition example_options ::
  "string option \<Rightarrow> string option \<Rightarrow> string option \<Rightarrow> nat factory_options" where
  "example_options i e k =
     \<lparr>clientEmail = e, privateKey = k, serviceAccountCredentials = Some ''/etc/sa.json'',
      sheetId = i, sheetName = None, startX = None, startY = None\<rparr>"

section \<open>Properties\<close>

subsection \<open>The remote service and the two operations\<close>

lemma call_failing: "failing r q = Some e \<Longrightarrow> call q r = (Inl e, r\<lparr>requests := requests r @ [q]\<rparr>)"
  by (simp add: call_def Let_def)

lemma call_Get: "failing r (Get a i rg) = None \<Longrightarrow>
  call (Get a i rg) r = (Inr (content r (i, rg)), r\<lparr>requests := requests r @ [Get a i rg]\<rparr>)"
  by (simp add: call_def Let_def)

lemma call_Clear: "failing r (Clear a i rg) = None \<Longrightarrow>
  call (Clear a i rg) r =
    (Inr None, r\<lparr>requests := requests r @ [Clear a i rg], content := (content r)((i, rg) := None)\<rparr>)"
  by (simp add: call_def Let_def)

lemma overlay_rows_empty [simp]: "overlay_rows rows [] = rows"
  by (induction rows) simp_all

lemma call_Update: "failing r (Update a i rg opt rows) = None \<Longrightarrow>
  call (Update a i rg opt rows) r =
    (Inr None, r\<lparr>requests := requests r @ [Update a i rg opt rows],
                 content := (content r)((i, rg) \<mapsto>
                   overlay_rows rows (case content r (i, rg) of None \<Rightarrow> [] | Some old \<Rightarrow> old))\<rparr>)"
  by (simp add: call_def Let_def)

lemma load_range:
  "load L this r =
     (case call (Get (priv_authClient this) (priv_sheetId this)
                  (range_formula L (priv_sheetName this) (priv_startX this) (priv_startY this))) r of
        (Inl e, r1) \<Rightarrow> (Inl e, r1)
      | (Inr values, r1) \<Rightarrow>
          (Inr (this\<lparr>priv_data :=
                  Held (foldl (store_row L) [] (case values of None \<Rightarrow> [] | Some vs \<Rightarrow> vs))\<rparr>), r1))"
  unfolding load_def range_formula_def Let_def ..

lemma save_range:
  "save L this r =
     (case data_entries L (priv_data this) of
        Inl e \<Rightarrow> (Some e, r)
      | Inr entries \<Rightarrow>
         (case call (Clear (priv_authClient this) (priv_sheetId this)
                  (range_formula L (priv_sheetName this) (priv_startX this) (priv_startY this))) r of
            (Inl e, r1) \<Rightarrow> (Some e, r1)
          | (Inr u, r1) \<Rightarrow>
              (case call (Update (priv_authClient this) (priv_sheetId this)
                      (range_formula L (priv_sheetName this) (priv_startX this) (priv_startY this))
                      ''RAW'' (map (\<lambda>(k, v). [JString k, v]) entries)) r1 of
                 (Inl e, r2) \<Rightarrow> (Some e, r2)
               | (Inr u, r2) \<Rightarrow> (None, r2))))"
  unfolding save_def range_formula_def Let_def ..

text \<open>
  With coordinates of the documented types the range reads as the specification
  writes it.
\<close>

lemma range_formula_documented:
  "range_formula L JUndefined (JString x) (JNumber y) = x @ Number_toString L y @ '':B''"
  "range_formula L (JString []) (JString x) (JNumber y) = x @ Number_toString L y @ '':B''"
  "n \<noteq> [] \<Longrightarrow>
     range_formula L (JString n) (JString x) (JNumber y) = n @ ''!'' @ x @ Number_toString L y @ '':B''"
  by (simp_all add: range_formula_def ToBoolean_def ToString_def)

text \<open>
  Claim C2. For every adapter state, \<open>load\<close> and \<open>save\<close> address the same range:
  the sheet name followed by \<^verbatim>\<open>!\<close> when a name is set and nothing otherwise, then
  the start column, the start row and the literal \<^verbatim>\<open>:B\<close>, whatever the start
  column is. The three coordinates appear as the language converts them to
  strings, the start row by the number-to-string conversion of the platform.
  \<open>load\<close> sends its one \<^verbatim>\<open>get\<close> there; \<open>save\<close>, once it has the entries of the
  mapping, sends its \<^verbatim>\<open>clear\<close> there and, unless the \<^verbatim>\<open>clear\<close> is rejected, its
  \<^verbatim>\<open>update\<close>.
\<close>

theorem load_and_save_range:
  "(let a = priv_authClient this; i = priv_sheetId this;
        rg = (if ToBoolean L (priv_sheetName this)
              then ToString L (priv_sheetName this) @ ''!'' else [])
             @ ToString L (priv_startX this) @ ToString L (priv_startY this) @ '':B''
    in requests (snd (load L this r)) = requests r @ [Get a i rg]
       \<and> requests (snd (save L this r)) =
           requests r @
           (case data_entries L (priv_data this) of
              Inl e \<Rightarrow> []
            | Inr entries \<Rightarrow>
                if failing r (Clear a i rg) = None
                then [Clear a i rg, Update a i rg ''RAW'' (map (\<lambda>(k, v). [JString k, v]) entries)]
                else [Clear a i rg]))"
proof -
  let ?a = "priv_authClient this"
  let ?i = "priv_sheetId this"
  let ?rg = "range_formula L (priv_sheetName this) (priv_startX this) (priv_startY this)"
  have l: "requests (snd (load L this r)) = requests r @ [Get ?a ?i ?rg]"
    by (cases "failing r (Get ?a ?i ?rg)") (simp_all add: load_range call_Get call_failing)
  have s: "requests (snd (save L this r)) =
           requests r @
           (case data_entries L (priv_data this) of
              Inl e \<Rightarrow> []
            | Inr entries \<Rightarrow>
                if failing r (Clear ?a ?i ?rg) = None
                then [Clear ?a ?i ?rg,
                      Update ?a ?i ?rg ''RAW'' (map (\<lambda>(k, v). [JString k, v]) entries)]
                else [Clear ?a ?i ?rg])"
  proof (cases "data_entries L (priv_data this)")
    case (Inl e)
    then show ?thesis by (simp add: save_range)
  next
    case (Inr entries)
    let ?rows = "map (\<lambda>(k, v). [JString k, v]) entries"
    show ?thesis
    proof (cases "failing r (Clear ?a ?i ?rg)")
      case None
      then show ?thesis
        using Inr
        by (cases "failing r (Update ?a ?i ?rg ''RAW'' ?rows)")
          (simp_all add: save_range call_Clear call_Update call_failing)
    next
      case (Some e)
      then show ?thesis using Inr by (simp add: save_range call_failing)
    qed
  qed
  show ?thesis
    unfolding Let_def
    using l [unfolded range_formula_def] s [unfolded range_formula_def] by (rule conjI)
qed

subsection \<open>Evaluated examples\<close>

lemma example_builtins_fields:
  "Number_toString example_builtins = digits_of"
  "Number_ToBoolean example_builtins = (\<lambda>n. n \<noteq> 0)"
  "Number example_builtins = (\<lambda>t. nat (index_value t))"
  by (simp_all add: example_builtins_def)

lemma example_digits: "digits_of (Suc 0) = ''1''" "digits_of 3 = ''3''"
  by (subst digits_of.simps, simp)+

lemma example_store_fields:
  "priv_authClient (example_store d) = Held example_client"
  "priv_sheetId (example_store d) = JString ''doc''"
  "priv_sheetName (example_store d) = JUndefined"
  "priv_startX (example_store d) = JString ''A''" "priv_startY (example_store d) = JNumber 1"
  "priv_data (example_store d) = Held d" "own_extra (example_store d) = []"
  by (simp_all add: example_store_def new_KeyValueStore_def)

lemma example_store_update: "(example_store d)\<lparr>priv_data := Held d'\<rparr> = example_store d'"
  by (simp add: example_store_def)

lemma example_range:
  "range_formula example_builtins JUndefined (JString ''A'') (JNumber (Suc 0)) = ''A1:B''"
  by (simp add: range_formula_documented example_builtins_fields example_digits)

lemma example_ToString:
  "ToString example_builtins (JString s) = s"
  "ToString example_builtins JUndefined = ''undefined''"
  "ToString example_builtins (JNumber (Suc 0)) = ''1''"
  "ToBoolean example_builtins JUndefined = False"
  by (simp_all add: ToString_def ToBoolean_def example_builtins_fields example_digits)

theorem load_and_save_range_witness:
  "requests (snd (load example_builtins
       (new_KeyValueStore example_client ''doc'' (Some ''Data'') ''C'' 3)
       (reliable_remote Map.empty)))
     = [Get (Held example_client) (JString ''doc'') ''Data!C3:B'']
   \<and> requests (snd (save example_builtins (example_store []) (reliable_remote Map.empty)))
     = [Clear (Held example_client) (JString ''doc'') ''A1:B'',
        Update (Held example_client) (JString ''doc'') ''A1:B'' ''RAW'' []]"
  using load_and_save_range [where L = example_builtins
      and this = "new_KeyValueStore example_client ''doc'' (Some ''Data'') ''C'' 3"
      and r = "reliable_remote Map.empty"]
    load_and_save_range [where L = example_builtins and this = "example_store []"
      and r = "reliable_remote Map.empty"]
  by (simp add: Let_def new_KeyValueStore_def example_store_fields ToString_def ToBoolean_def
      example_builtins_fields example_digits data_entries_def Object_entries_def
      reliable_remote_def)

subsection \<open>Own properties\<close>

lemma map_of_define_own: "map_of (define_own ps k v) = (map_of ps)(k \<mapsto> v)"
  by (induction ps) (auto simp: fun_eq_iff)

lemma set_define_own_subset: "set (define_own ps k v) \<subseteq> insert (k, v) (set ps)"
  by (induction ps) auto

lemma define_own_member: "(k, v) \<in> set (define_own ps k v)"
  by (induction ps) auto

lemma keys_define_own: "set (map fst (define_own ps k v)) = insert k (set (map fst ps))"
  by (induction ps) auto

lemma define_own_new: "k \<notin> set (map fst ps) \<Longrightarrow> define_own ps k v = ps @ [(k, v)]"
  by (induction ps) auto

lemma distinct_define_own:
  "distinct (map fst ps) \<Longrightarrow> distinct (map fst (define_own ps k v))"
proof (induction ps)
  case Nil
  then show ?case by simp
next
  case (Cons p ps)
  then show ?case
    using keys_define_own [of ps k v] by (cases "fst p = k") auto
qed

lemma get_own_define_own: "get_own (define_own ps k v) k = v"
  by (simp add: get_own_def map_of_define_own)

lemma plain_object_empty: "plain_object []"
  by (simp add: plain_object_def)

lemma plain_object_assign: "plain_object obj \<Longrightarrow> plain_object (assign_property obj k v)"
  using keys_define_own [of obj k v]
  by (auto simp: plain_object_def assign_property_def distinct_define_own)

lemma plain_object_store_row: "plain_object obj \<Longrightarrow> plain_object (store_row L obj rw)"
  by (simp add: store_row_def plain_object_assign)

lemma plain_object_foldl: "plain_object acc \<Longrightarrow> plain_object (foldl (store_row L) acc rows)"
  by (induction rows arbitrary: acc) (simp_all add: plain_object_store_row)

subsection \<open>Object.entries\<close>

lemma mset_Object_entries: "mset (Object_entries obj) = mset obj"
  by (simp add: Object_entries_def)

lemma set_Object_entries: "set (Object_entries obj) = set obj"
  by (auto simp: Object_entries_def)

lemma distinct_keys_Object_entries:
  "distinct (map fst (Object_entries obj)) = distinct (map fst obj)"
proof -
  have "mset (map fst (Object_entries obj)) = mset (map fst obj)"
    by (simp add: mset_Object_entries)
  then show ?thesis by (rule mset_eq_imp_distinct_iff)
qed

lemma map_of_Object_entries:
  assumes "distinct (map fst obj)"
  shows "map_of (Object_entries obj) = map_of obj"
  using assms by (simp add: map_of_inject_set distinct_keys_Object_entries set_Object_entries)

lemma Object_entries_idem: "Object_entries (Object_entries obj) = Object_entries obj"
proof -
  let ?f = "\<lambda>p::string \<times> 'a jsval. index_value (fst p)"
  let ?P = "\<lambda>p::string \<times> 'a jsval. is_array_index (fst p)"
  let ?ix = "sort_key ?f (filter ?P obj)"
  let ?rest = "filter (\<lambda>p. \<not> ?P p) obj"
  have 1: "filter ?P ?ix = ?ix" by (simp add: filter_sort)
  have 2: "filter ?P ?rest = []" by (simp add: filter_empty_conv)
  have 3: "filter (\<lambda>p. \<not> ?P p) ?ix = []" by (auto simp: filter_empty_conv)
  have 4: "filter (\<lambda>p. \<not> ?P p) ?rest = ?rest" by simp
  have 5: "sort_key ?f ?ix = ?ix" by (rule sort_key_id_if_sorted) simp
  show ?thesis
    unfolding Object_entries_def filter_append 1 2 3 4 by (simp add: 5)
qed

subsection \<open>The loop of load\<close>

lemma store_row_pair:
  "store_row L obj [JString k, v] =
     assign_property obj k (if v = JUndefined then JString [] else v)"
  by (simp add: store_row_def row_key_def row_value_def ToString_def)

lemma foldl_store_entries:
  assumes "distinct (map fst (acc @ es))" and "''__proto__'' \<notin> set (map fst es)"
    and "JUndefined \<notin> set (map snd es)"
  shows "foldl (store_row L) acc (map (\<lambda>(k, v). [JString k, v]) es) = acc @ es"
  using assms
proof (induction es arbitrary: acc)
  case Nil
  then show ?case by simp
next
  case (Cons e es)
  obtain k v where e: "e = (k, v)" by (cases e)
  have new: "k \<notin> set (map fst acc)" using Cons.prems(1) e by auto
  have step: "store_row L acc [JString k, v] = acc @ [(k, v)]"
    using Cons.prems(2,3) e new
    by (auto simp: store_row_pair assign_property_def define_own_new)
  have "foldl (store_row L) (acc @ [(k, v)]) (map (\<lambda>(k, v). [JString k, v]) es) =
        (acc @ [(k, v)]) @ es"
    using Cons.prems e by (intro Cons.IH) auto
  then show ?case using step e by simp
qed

lemma set_store_row:
  "set (store_row L obj rw) \<subseteq> insert (ToString L (row_key rw), row_value rw) (set obj)"
  using set_define_own_subset [of obj "ToString L (row_key rw)" "row_value rw"]
  by (auto simp: store_row_def assign_property_def)

lemma set_foldl_store_row:
  "set (foldl (store_row L) acc rows) \<subseteq>
     set acc \<union> (\<lambda>rw. (ToString L (row_key rw), row_value rw)) ` set rows"
proof (induction rows arbitrary: acc)
  case Nil
  then show ?case by simp
next
  case (Cons rw rows)
  show ?case using Cons.IH [of "store_row L acc rw"] set_store_row [of L acc rw] by auto
qed

lemma map_of_store_row:
  "map_of (store_row L obj rw) =
     (if ToString L (row_key rw) = ''__proto__'' then map_of obj
      else (map_of obj)(ToString L (row_key rw) \<mapsto> row_value rw))"
  by (simp add: store_row_def assign_property_def map_of_define_own)

lemma find_append_cases:
  "find P (xs @ ys) = (case find P xs of None \<Rightarrow> find P ys | Some x \<Rightarrow> Some x)"
  by (induction xs) auto

text \<open>Among the rows with one key the last decides, unless the key is \<^verbatim>\<open>__proto__\<close>.\<close>

lemma map_of_foldl_store_row:
  assumes "k \<noteq> ''__proto__''"
  shows "map_of (foldl (store_row L) acc rows) k =
     (case find (\<lambda>rw. ToString L (row_key rw) = k) (rev rows) of
        None \<Rightarrow> map_of acc k
      | Some rw \<Rightarrow> Some (row_value rw))"
  using assms
proof (induction rows arbitrary: acc)
  case Nil
  then show ?case by simp
next
  case (Cons rw rows)
  show ?case
    using Cons.IH [of "store_row L acc rw"] Cons.prems
    by (auto simp: map_of_store_row find_append_cases split: option.splits)
qed

lemma map_of_foldl_store_row_proto:
  "map_of (foldl (store_row L) acc rows) ''__proto__'' = map_of acc ''__proto__''"
  by (induction rows arbitrary: acc) (simp_all add: map_of_store_row)

subsection \<open>save\<close>

lemma save_success:
  assumes "save L this r = (None, r')" and "priv_data this = Held d"
  shows "failing r (Clear (priv_authClient this) (priv_sheetId this)
           (range_formula L (priv_sheetName this) (priv_startX this) (priv_startY this))) = None"
    and "failing r (Update (priv_authClient this) (priv_sheetId this)
           (range_formula L (priv_sheetName this) (priv_startX this) (priv_startY this)) ''RAW''
           (map (\<lambda>(k, v). [JString k, v]) (Object_entries d))) = None"
    and "r' = r\<lparr>requests := requests r @
                [Clear (priv_authClient this) (priv_sheetId this)
                   (range_formula L (priv_sheetName this) (priv_startX this) (priv_startY this)),
                 Update (priv_authClient this) (priv_sheetId this)
                   (range_formula L (priv_sheetName this) (priv_startX this) (priv_startY this))
                   ''RAW'' (map (\<lambda>(k, v). [JString k, v]) (Object_entries d))],
              content := (content r)
                ((priv_sheetId this,
                  range_formula L (priv_sheetName this) (priv_startX this) (priv_startY this)) \<mapsto>
                 map (\<lambda>(k, v). [JString k, v]) (Object_entries d))\<rparr>"
proof -
  let ?a = "priv_authClient this"
  let ?i = "priv_sheetId this"
  let ?rg = "range_formula L (priv_sheetName this) (priv_startX this) (priv_startY this)"
  let ?rows = "map (\<lambda>(k, v). [JString k, v]) (Object_entries d)"
  have e: "data_entries L (priv_data this) = Inr (Object_entries d)"
    using assms(2) by (simp add: data_entries_def)
  show c: "failing r (Clear ?a ?i ?rg) = None"
  proof (cases "failing r (Clear ?a ?i ?rg)")
    case (Some x)
    then show ?thesis using assms(1) e by (simp add: save_range call_failing)
  qed simp
  show u: "failing r (Update ?a ?i ?rg ''RAW'' ?rows) = None"
  proof (cases "failing r (Update ?a ?i ?rg ''RAW'' ?rows)")
    case (Some x)
    then show ?thesis using assms(1) e c by (simp add: save_range call_Clear call_failing)
  qed simp
  show "r' = r\<lparr>requests := requests r @ [Clear ?a ?i ?rg, Update ?a ?i ?rg ''RAW'' ?rows],
              content := (content r)((?i, ?rg) \<mapsto> ?rows)\<rparr>"
    using assms(1) e c u by (simp add: save_range call_Clear call_Update)
qed

text \<open>
  Claim C3. For every mapping in memory, a \<open>save\<close> that succeeds has sent exactly
  two requests, first one \<^verbatim>\<open>clear\<close> of the target range and then one \<^verbatim>\<open>update\<close> of
  the same range whose rows are the entries of the mapping, one two-cell row of
  key and value for each entry and no other row, in the order in which
  \<^verbatim>\<open>Object.entries\<close> iterates the mapping. Afterwards the service holds exactly
  these rows for the range, whatever it held before.
\<close>

theorem save_clears_then_writes:
  assumes "save L this r = (None, r')" and "priv_data this = Held d"
  shows "(let a = priv_authClient this; i = priv_sheetId this;
              rg = range_formula L (priv_sheetName this) (priv_startX this) (priv_startY this);
              rows = map (\<lambda>(k, v). [JString k, v]) (Object_entries d)
          in requests r' = requests r @ [Clear a i rg, Update a i rg ''RAW'' rows]
             \<and> content r' (i, rg) = Some rows
             \<and> mset (Object_entries d) = mset d)"
  using save_success(3) [OF assms] by (simp add: Let_def mset_Object_entries)

theorem save_clears_then_writes_witness:
  "save example_builtins (example_store [(''y'', JString ''new'')])
        (reliable_remote [(JString ''doc'', ''A1:B'') \<mapsto>
           [[JString ''x'', JString ''old''], [JString ''z'', JString ''kept'']]])
     = (None, (reliable_remote [(JString ''doc'', ''A1:B'') \<mapsto> [[JString ''y'', JString ''new'']]])
                \<lparr>requests := [Clear (Held example_client) (JString ''doc'') ''A1:B'',
                     Update (Held example_client) (JString ''doc'') ''A1:B'' ''RAW''
                       [[JString ''y'', JString ''new'']]]\<rparr>)
   \<and> content ((reliable_remote [(JString ''doc'', ''A1:B'') \<mapsto> [[JString ''y'', JString ''new'']]])
                \<lparr>requests := [Clear (Held example_client) (JString ''doc'') ''A1:B'',
                     Update (Held example_client) (JString ''doc'') ''A1:B'' ''RAW''
                       [[JString ''y'', JString ''new'']]]\<rparr>)
        (JString ''doc'', ''A1:B'') = Some [[JString ''y'', JString ''new'']]"
proof -
  let ?s = "example_store [(''y'', JString ''new'')]"
  let ?r = "reliable_remote [(JString ''doc'', ''A1:B'') \<mapsto>
           [[JString ''x'', JString ''old''], [JString ''z'', JString ''kept'']]]"
  let ?r' = "(reliable_remote [(JString ''doc'', ''A1:B'') \<mapsto> [[JString ''y'', JString ''new'']]])
                \<lparr>requests := [Clear (Held example_client) (JString ''doc'') ''A1:B'',
                     Update (Held example_client) (JString ''doc'') ''A1:B'' ''RAW''
                       [[JString ''y'', JString ''new'']]]\<rparr>"
  have e: "Object_entries [(''y'', JString ''new''::nat jsval)] = [(''y'', JString ''new'')]"
    by (simp add: Object_entries_def is_array_index_def)
  have h: "save example_builtins ?s ?r = (None, ?r')"
    by (simp add: save_range call_def Let_def example_store_fields reliable_remote_def
        example_range data_entries_def e)
  have d: "priv_data ?s = Held [(''y'', JString ''new'')]"
    by (simp add: example_store_fields)
  show ?thesis
    using h save_clears_then_writes [OF h d]
    by (simp add: Let_def example_store_fields example_range e)
qed

text \<open>
  The \<^verbatim>\<open>clear\<close> is what makes the replacement complete: the same \<^verbatim>\<open>update\<close> sent
  alone would leave the second of two old rows in place.
\<close>

lemma update_alone_merges:
  "content (snd (call (Update (Held example_client) (JString ''doc'') ''A1:B'' ''RAW''
                        [[JString ''y'', JString ''new'']])
       (reliable_remote [(JString ''doc'', ''A1:B'') \<mapsto>
          [[JString ''x'', JString ''old''], [JString ''z'', JString ''kept'']]])))
     (JString ''doc'', ''A1:B'')
   = Some [[JString ''y'', JString ''new''], [JString ''z'', JString ''kept'']]"
  by (simp add: call_def Let_def reliable_remote_def)

subsection \<open>load\<close>

lemma load_success:
  assumes "load L this r = (Inr this', r')"
  shows "failing r (Get (priv_authClient this) (priv_sheetId this)
           (range_formula L (priv_sheetName this) (priv_startX this) (priv_startY this))) = None"
    and "this' = this\<lparr>priv_data := Held (foldl (store_row L) []
           (case content r (priv_sheetId this,
                   range_formula L (priv_sheetName this) (priv_startX this) (priv_startY this)) of
              None \<Rightarrow> [] | Some vs \<Rightarrow> vs))\<rparr>"
    and "r' = r\<lparr>requests := requests r @ [Get (priv_authClient this) (priv_sheetId this)
           (range_formula L (priv_sheetName this) (priv_startX this) (priv_startY this))]\<rparr>"
proof -
  let ?q = "Get (priv_authClient this) (priv_sheetId this)
           (range_formula L (priv_sheetName this) (priv_startX this) (priv_startY this))"
  show g: "failing r ?q = None"
  proof (cases "failing r ?q")
    case (Some e)
    then show ?thesis using assms by (simp add: load_range call_failing)
  qed simp
  show "this' = this\<lparr>priv_data := Held (foldl (store_row L) []
           (case content r (priv_sheetId this,
                   range_formula L (priv_sheetName this) (priv_startX this) (priv_startY this)) of
              None \<Rightarrow> [] | Some vs \<Rightarrow> vs))\<rparr>"
    using assms g by (simp add: load_range call_Get)
  show "r' = r\<lparr>requests := requests r @ [?q]\<rparr>"
    using assms g by (simp add: load_range call_Get)
qed

lemma load_reliable:
  assumes "failing r (Get (priv_authClient this) (priv_sheetId this)
           (range_formula L (priv_sheetName this) (priv_startX this) (priv_startY this))) = None"
  shows "load L this r =
     (Inr (this\<lparr>priv_data := Held (foldl (store_row L) []
           (case content r (priv_sheetId this,
                   range_formula L (priv_sheetName this) (priv_startX this) (priv_startY this)) of
              None \<Rightarrow> [] | Some vs \<Rightarrow> vs))\<rparr>),
      r\<lparr>requests := requests r @ [Get (priv_authClient this) (priv_sheetId this)
           (range_formula L (priv_sheetName this) (priv_startX this) (priv_startY this))]\<rparr>)"
  using assms by (simp add: load_range call_Get)

lemma entry_from_row:
  assumes "(k, v) \<in> set (foldl (store_row L) [] rows)"
  shows "\<exists>rw \<in> set rows. k = ToString L (row_key rw) \<and> v = row_value rw"
  using set_foldl_store_row [of L "[]" rows] assms by auto

text \<open>
  What \<open>load\<close> does to the prior mapping: the outcome is the same whatever the
  field \<^verbatim>\<open>_data\<close> held before, every entry of the new mapping is the key and value
  of a fetched row, and a name that is the key of no fetched row has no entry
  afterwards.
\<close>

lemma load_discards_prior_mapping:
  assumes "load L this r = (Inr this', r')"
  shows "load L (this\<lparr>priv_data := prior\<rparr>) r = (Inr this', r')"
    and "\<exists>d. priv_data this' = Held d
           \<and> (\<forall>(k, v) \<in> set d.
                 \<exists>rw \<in> set (case content r (priv_sheetId this,
                      range_formula L (priv_sheetName this) (priv_startX this) (priv_startY this)) of
                        None \<Rightarrow> [] | Some vs \<Rightarrow> vs).
                   k = ToString L (row_key rw) \<and> v = row_value rw)"
proof -
  let ?rows = "case content r (priv_sheetId this,
                   range_formula L (priv_sheetName this) (priv_startX this) (priv_startY this)) of
                 None \<Rightarrow> [] | Some vs \<Rightarrow> vs"
  note s = load_success [OF assms]
  show "load L (this\<lparr>priv_data := prior\<rparr>) r = (Inr this', r')"
    using load_reliable [of r "this\<lparr>priv_data := prior\<rparr>" L] s by simp
  have d: "priv_data this' = Held (foldl (store_row L) [] ?rows)"
    by (subst s(2)) simp
  have "\<forall>(k, v) \<in> set (foldl (store_row L) [] ?rows).
           \<exists>rw \<in> set ?rows. k = ToString L (row_key rw) \<and> v = row_value rw"
    using entry_from_row [of _ _ L ?rows] by blast
  then show "\<exists>d. priv_data this' = Held d
           \<and> (\<forall>(k, v) \<in> set d. \<exists>rw \<in> set ?rows. k = ToString L (row_key rw) \<and> v = row_value rw)"
    using d by blast
qed

text \<open>
  After a \<open>load\<close> that returns, a name other than \<^verbatim>\<open>__proto__\<close> has the value of the
  last fetched row that carries it as key, and no entry when no row does; the
  name \<^verbatim>\<open>__proto__\<close> has no entry, whatever the rows are.
\<close>

lemma load_last_row_wins:
  assumes "load L this r = (Inr this', r')"
  shows "\<exists>d. priv_data this' = Held d
           \<and> (\<forall>k. map_of d k =
                 (if k = ''__proto__'' then None
                  else case find (\<lambda>rw. ToString L (row_key rw) = k)
                         (rev (case content r (priv_sheetId this,
                            range_formula L (priv_sheetName this) (priv_startX this)
                              (priv_startY this)) of
                            None \<Rightarrow> [] | Some vs \<Rightarrow> vs)) of
                    None \<Rightarrow> None
                  | Some rw \<Rightarrow> Some (row_value rw)))"
proof -
  let ?rows = "case content r (priv_sheetId this,
                   range_formula L (priv_sheetName this) (priv_startX this) (priv_startY this)) of
                 None \<Rightarrow> [] | Some vs \<Rightarrow> vs"
  have d: "priv_data this' = Held (foldl (store_row L) [] ?rows)"
    by (subst load_success(2) [OF assms]) simp
  have "\<forall>k. map_of (foldl (store_row L) [] ?rows) k =
          (if k = ''__proto__'' then None
           else case find (\<lambda>rw. ToString L (row_key rw) = k) (rev ?rows) of
                  None \<Rightarrow> None | Some rw \<Rightarrow> Some (row_value rw))"
  proof
    fix k
    show "map_of (foldl (store_row L) [] ?rows) k =
          (if k = ''__proto__'' then None
           else case find (\<lambda>rw. ToString L (row_key rw) = k) (rev ?rows) of
                  None \<Rightarrow> None | Some rw \<Rightarrow> Some (row_value rw))"
    proof (cases "k = ''__proto__''")
      case True
      then show ?thesis by (simp add: map_of_foldl_store_row_proto)
    next
      case False
      then show ?thesis
        by (simp add: map_of_foldl_store_row [OF False] split: option.split)
    qed
  qed
  then show ?thesis using d by blast
qed

subsection \<open>save followed by load\<close>

lemma load_written_rows:
  assumes "plain_object obj" and "JUndefined \<notin> set (map snd obj)"
  shows "foldl (store_row L) [] (map (\<lambda>(k, v). [JString k, v]) (Object_entries obj)) =
         Object_entries obj"
proof -
  have 1: "distinct (map fst ([] @ Object_entries obj))"
    using assms(1) by (simp add: plain_object_def distinct_keys_Object_entries)
  have "set (map fst (Object_entries obj)) = set (map fst obj)"
    and "set (map snd (Object_entries obj)) = set (map snd obj)"
    by (simp_all add: set_Object_entries)
  then have 2: "''__proto__'' \<notin> set (map fst (Object_entries obj))"
    and 3: "JUndefined \<notin> set (map snd (Object_entries obj))"
    using assms by (simp_all add: plain_object_def)
  show ?thesis using foldl_store_entries [OF 1 2 3] by simp
qed

text \<open>
  The mappings the adapter comes to hold are such objects: the constructor starts
  with an empty one, \<open>load\<close> builds one, and an assignment through the wrapper
  keeps one, unless it replaces the field \<^verbatim>\<open>_data\<close> itself by a value.
\<close>

lemma new_KeyValueStore_plain:
  "\<exists>d. priv_data (new_KeyValueStore a i n x y) = Held d \<and> plain_object d"
  by (simp add: new_KeyValueStore_def plain_object_def)

lemma load_plain:
  assumes "load L this r = (Inr this', r')"
  shows "\<exists>d. priv_data this' = Held d \<and> plain_object d"
  by (subst load_success(2) [OF assms]) (simp add: plain_object_foldl plain_object_empty)

lemma wrapper_set_plain:
  assumes "priv_data t = Held d" and "plain_object d" and "wrapper_set p v t = Inr t'"
  shows "(\<exists>d'. priv_data t' = Held d' \<and> plain_object d') \<or> (p = ''_data'' \<and> priv_data t' = Replaced v)"
proof (cases "in_target p t")
  case True
  then have "t' = Reflect_set p v t" using assms(3) by (simp add: wrapper_set_def)
  then show ?thesis using assms(1,2) by (auto simp: Reflect_set_def)
next
  case False
  then have "t' = t\<lparr>priv_data := Held (assign_property d p v)\<rparr>"
    using assms(1,3) by (simp add: wrapper_set_def)
  then show ?thesis using assms(2) by (simp add: plain_object_assign)
qed

text \<open>
  Claim C1. Let the adapter hold a mapping (an object as property assignment
  builds it) none of whose values is \<^verbatim>\<open>undefined\<close>, in particular any mapping of
  strings to strings such as \<^verbatim>\<open>{a: "1", b: "2"}\<close>. If \<open>save\<close> succeeds and a \<open>load\<close>
  over the same range then returns, on an adapter with any prior content of
  \<^verbatim>\<open>_data\<close> and with a service that keeps what was written, the mapping loaded
  has the entries of the mapping saved, with the same values and in the same
  iteration order.
\<close>

theorem save_then_load_roundtrip:
  assumes "priv_data this = Held d" and "plain_object d"
    and "JUndefined \<notin> set (map snd d)"
    and "save L this r = (None, r1)"
    and "load L (this\<lparr>priv_data := prior\<rparr>) r1 = (Inr loaded, r2)"
  shows "\<exists>d'. priv_data loaded = Held d'
           \<and> Object_entries d' = Object_entries d \<and> map_of d' = map_of d"
proof -
  let ?i = "priv_sheetId this"
  let ?rg = "range_formula L (priv_sheetName this) (priv_startX this) (priv_startY this)"
  let ?rows = "map (\<lambda>(k, v). [JString k, v]) (Object_entries d)"
  have "content r1 (?i, ?rg) = Some ?rows"
    by (subst save_success(3) [OF assms(4,1)]) simp
  then have "priv_data loaded = Held (foldl (store_row L) [] ?rows)"
    by (subst load_success(2) [OF assms(5)]) simp
  then have l: "priv_data loaded = Held (Object_entries d)"
    using load_written_rows [OF assms(2,3)] by simp
  have "distinct (map fst d)"
    using assms(2) by (simp add: plain_object_def)
  then have "Object_entries (Object_entries d) = Object_entries d
      \<and> map_of (Object_entries d) = map_of d"
    by (simp add: Object_entries_idem map_of_Object_entries)
  then show ?thesis using l by blast
qed

theorem save_then_load_roundtrip_witness:
  "plain_object [(''a'', JString ''1''::nat jsval), (''b'', JString ''2'')]
   \<and> save example_builtins (example_store [(''a'', JString ''1''), (''b'', JString ''2'')])
        (reliable_remote Map.empty)
       = (None, (reliable_remote
            [(JString ''doc'', ''A1:B'') \<mapsto>
               [[JString ''a'', JString ''1''], [JString ''b'', JString ''2'']]])
          \<lparr>requests := [Clear (Held example_client) (JString ''doc'') ''A1:B'',
              Update (Held example_client) (JString ''doc'') ''A1:B'' ''RAW''
                [[JString ''a'', JString ''1''], [JString ''b'', JString ''2'']]]\<rparr>)
   \<and> load example_builtins (example_store [])
        ((reliable_remote
            [(JString ''doc'', ''A1:B'') \<mapsto>
               [[JString ''a'', JString ''1''], [JString ''b'', JString ''2'']]])
          \<lparr>requests := [Clear (Held example_client) (JString ''doc'') ''A1:B'',
              Update (Held example_client) (JString ''doc'') ''A1:B'' ''RAW''
                [[JString ''a'', JString ''1''], [JString ''b'', JString ''2'']]]\<rparr>)
       = (Inr (example_store [(''a'', JString ''1''), (''b'', JString ''2'')]),
          (reliable_remote
            [(JString ''doc'', ''A1:B'') \<mapsto>
               [[JString ''a'', JString ''1''], [JString ''b'', JString ''2'']]])
          \<lparr>requests := [Clear (Held example_client) (JString ''doc'') ''A1:B'',
              Update (Held example_client) (JString ''doc'') ''A1:B'' ''RAW''
                [[JString ''a'', JString ''1''], [JString ''b'', JString ''2'']],
              Get (Held example_client) (JString ''doc'') ''A1:B'']\<rparr>)
   \<and> (\<exists>d'. priv_data (example_store [(''a'', JString ''1''), (''b'', JString ''2'')]) = Held d'
         \<and> map_of d' = map_of [(''a'', JString ''1''), (''b'', JString ''2'')])"
proof -
  let ?d = "[(''a'', JString ''1''::nat jsval), (''b'', JString ''2'')]"
  let ?rows = "[[JString ''a'', JString ''1''::nat jsval], [JString ''b'', JString ''2'']]"
  let ?c = "Held example_client"
  let ?r1 = "(reliable_remote [(JString ''doc'', ''A1:B'') \<mapsto> ?rows])
          \<lparr>requests := [Clear ?c (JString ''doc'') ''A1:B'',
                        Update ?c (JString ''doc'') ''A1:B'' ''RAW'' ?rows]\<rparr>"
  let ?r2 = "(reliable_remote [(JString ''doc'', ''A1:B'') \<mapsto> ?rows])
          \<lparr>requests := [Clear ?c (JString ''doc'') ''A1:B'',
                        Update ?c (JString ''doc'') ''A1:B'' ''RAW'' ?rows,
                        Get ?c (JString ''doc'') ''A1:B'']\<rparr>"
  have h: "priv_data (example_store ?d) = Held ?d" by (simp add: example_store_fields)
  have p: "plain_object ?d" by (simp add: plain_object_def)
  have u: "JUndefined \<notin> set (map snd ?d)" by simp
  have e: "Object_entries ?d = ?d"
    by (simp add: Object_entries_def is_array_index_def)
  have s: "save example_builtins (example_store ?d) (reliable_remote Map.empty) = (None, ?r1)"
    by (simp add: save_range call_def Let_def example_store_fields reliable_remote_def
        example_range data_entries_def e)
  have st: "store_row example_builtins (store_row example_builtins [] [JString ''a'', JString ''1''])
              [JString ''b'', JString ''2''] = ?d"
    by (simp add: store_row_pair assign_property_def)
  have l: "load example_builtins ((example_store ?d)\<lparr>priv_data := Held []\<rparr>) ?r1
             = (Inr (example_store ?d), ?r2)"
    by (simp add: load_range call_def Let_def example_store_fields reliable_remote_def
        example_range st example_store_update)
  show ?thesis
    using p s l save_then_load_roundtrip [OF h p u s l]
    by (simp add: example_store_fields example_store_update)
qed

subsection \<open>From rows to entries\<close>

text \<open>
  A row whose key is not \<^verbatim>\<open>__proto__\<close> yields the entry of its first cell and its
  second cell; a missing second cell yields the empty string, and a missing first
  cell the key \<^verbatim>\<open>undefined\<close>.
\<close>

lemma store_row_entry:
  assumes "ToString L (row_key rw) \<noteq> ''__proto__''"
  shows "map_of (store_row L obj rw) (ToString L (row_key rw)) = Some (row_value rw)"
  using assms by (simp add: map_of_store_row)

lemma row_value_absent: "row_value [] = JString []" "row_value [c] = JString []"
  by (simp_all add: row_value_def)

lemma row_key_absent: "ToString L (row_key []) = ''undefined''"
  by (simp add: row_key_def ToString_def)

lemma row_cells: "row_key (c # cs) = c" "d \<noteq> JUndefined \<Longrightarrow> row_value (c # d # ds) = d"
  by (simp_all add: row_key_def row_value_def)

text \<open>
  Claim C4 says that after \<open>load\<close> the mapping contains exactly the entries derived
  from the fetched rows, and nothing of the prior mapping unless read again. The
  second half holds (\<open>load_discards_prior_mapping\<close>), and so does the first for
  every row whose key is not \<^verbatim>\<open>__proto__\<close> (\<open>load_last_row_wins\<close>). With a prior
  mapping \<^verbatim>\<open>{x: "old"}\<close> and the fetched rows \<^verbatim>\<open>["__proto__", "v"]\<close> and
  \<^verbatim>\<open>["y", "new"]\<close>, the mapping after \<open>load\<close> is \<^verbatim>\<open>{y: "new"}\<close>: the prior entry is
  gone, and so is the entry of the first row.
\<close>

theorem load_misses_proto_entry:
  "load example_builtins (example_store [(''x'', JString ''old'')])
        (reliable_remote [(JString ''doc'', ''A1:B'') \<mapsto>
           [[JString ''__proto__'', JString ''v''], [JString ''y'', JString ''new'']]])
   = (Inr (example_store [(''y'', JString ''new'')]),
      (reliable_remote [(JString ''doc'', ''A1:B'') \<mapsto>
           [[JString ''__proto__'', JString ''v''], [JString ''y'', JString ''new'']]])
        \<lparr>requests := [Get (Held example_client) (JString ''doc'') ''A1:B'']\<rparr>)
   \<and> map_of [(''y'', JString ''new''::nat jsval)] ''__proto__'' = None"
  by (simp add: load_range call_def Let_def example_store_fields reliable_remote_def
      example_range store_row_pair assign_property_def example_store_update)

text \<open>
  Claim C5 says that every fetched row is stored, its first cell as the key and
  its second cell (or the empty string) as the value. The lemmas above show this
  for every key but one. For the row \<^verbatim>\<open>["__proto__", "x"]\<close> the assignment
  \<^verbatim>\<open>this._data[key] = value\<close> reaches the inherited setter and creates no
  property: \<open>load\<close> returns with an empty mapping.
\<close>

theorem load_drops_proto_row:
  "load example_builtins (example_store [])
        (reliable_remote [(JString ''doc'', ''A1:B'') \<mapsto> [[JString ''__proto__'', JString ''x'']]])
   = (Inr (example_store []),
      (reliable_remote [(JString ''doc'', ''A1:B'') \<mapsto> [[JString ''__proto__'', JString ''x'']]])
        \<lparr>requests := [Get (Held example_client) (JString ''doc'') ''A1:B'']\<rparr>)"
  by (simp add: load_range call_def Let_def example_store_fields reliable_remote_def
      example_range store_row_pair assign_property_def example_store_update)

text \<open>
  Claim C10 says that among rows with one key the last one decides the value
  (\<open>load_last_row_wins\<close> shows it for every key other than \<^verbatim>\<open>__proto__\<close>). For
  two rows with the key \<^verbatim>\<open>__proto__\<close> the mapping has no entry under that name
  after \<open>load\<close>, neither the first value nor the last.
\<close>

theorem load_duplicate_proto_rows:
  "map_of (foldl (store_row example_builtins) []
      [[JString ''__proto__'', JString ''first''], [JString ''__proto__'', JString ''last'']])
     ''__proto__'' = None
   \<and> fst (load example_builtins (example_store [])
        (reliable_remote [(JString ''doc'', ''A1:B'') \<mapsto>
           [[JString ''__proto__'', JString ''first''], [JString ''__proto__'', JString ''last'']]]))
     = Inr (example_store [])"
  by (simp add: load_range call_def Let_def example_store_fields reliable_remote_def
      example_range store_row_pair assign_property_def example_store_update)

subsection \<open>parseSheetId\<close>

lemma match_here_sound:
  assumes "match_here t = Some g"
  shows "\<exists>rest. t = ''/spreadsheets/d/'' @ g @ rest \<and> g \<noteq> [] \<and> list_all id_char g
           \<and> (rest = [] \<or> \<not> id_char (hd rest))"
proof -
  let ?tail = "drop 16 t"
  from assms have m: "take 16 t = ''/spreadsheets/d/''"
    and g: "g = takeWhile id_char ?tail" and ne: "g \<noteq> []"
    by (auto simp: match_here_def split: if_splits)
  have "t = take 16 t @ ?tail" by simp
  also have "?tail = g @ dropWhile id_char ?tail" by (simp add: g)
  finally have t: "t = ''/spreadsheets/d/'' @ g @ dropWhile id_char ?tail"
    using m by simp
  have all: "list_all id_char g"
    unfolding g list_all_iff by (auto dest: set_takeWhileD)
  have stop: "dropWhile id_char ?tail = [] \<or> \<not> id_char (hd (dropWhile id_char ?tail))"
    using hd_dropWhile [of id_char ?tail] by blast
  show ?thesis using t ne all stop by blast
qed

lemma match_here_complete:
  assumes "ident \<noteq> []" and "list_all id_char ident"
  shows "match_here (''/spreadsheets/d/'' @ ident @ rest) \<noteq> None"
proof -
  obtain c cs where i: "ident = c # cs" using assms(1) by (cases ident) auto
  then have "id_char c" using assms(2) by simp
  then have "takeWhile id_char (ident @ rest) \<noteq> []" using i by simp
  then show ?thesis by (simp add: match_here_def)
qed

lemma regex_match_None:
  "regex_match s = None \<longleftrightarrow> (\<forall>n < Suc (length s). match_here (drop n s) = None)"
proof (induction s)
  case Nil
  then show ?case by simp
next
  case (Cons c cs)
  have split: "(\<forall>n < Suc (length (c # cs)). match_here (drop n (c # cs)) = None) \<longleftrightarrow>
        match_here (c # cs) = None \<and> (\<forall>n < Suc (length cs). match_here (drop n cs) = None)"
    by (subst All_less_Suc2) simp
  show ?case
  proof (cases "match_here (c # cs)")
    case None
    then show ?thesis unfolding split using Cons.IH by simp
  next
    case (Some g)
    then show ?thesis unfolding split by simp
  qed
qed

lemma regex_match_Some:
  assumes "regex_match s = Some g"
  shows "\<exists>n \<le> length s. match_here (drop n s) = Some g
           \<and> (\<forall>m < n. match_here (drop m s) = None)"
  using assms
proof (induction s)
  case Nil
  then show ?case by simp
next
  case (Cons c cs)
  show ?case
  proof (cases "match_here (c # cs)")
    case None
    then have "regex_match cs = Some g" using Cons.prems by simp
    then obtain n where n: "n \<le> length cs" "match_here (drop n cs) = Some g"
      and least: "\<forall>m < n. match_here (drop m cs) = None"
      using Cons.IH by blast
    have "\<forall>m < Suc n. match_here (drop m (c # cs)) = None"
      by (subst All_less_Suc2) (simp add: None least)
    moreover have "Suc n \<le> length (c # cs)" "match_here (drop (Suc n) (c # cs)) = Some g"
      using n by simp_all
    ultimately show ?thesis by blast
  next
    case (Some h)
    then have "match_here (drop 0 (c # cs)) = Some g" using Cons.prems by simp
    moreover have "\<forall>m < (0::nat). match_here (drop m (c # cs)) = None" by simp
    ultimately show ?thesis by blast
  qed
qed

lemma segment_matches:
  assumes "segment_at s b i t"
  shows "length b < Suc (length s)" and "match_here (drop (length b) s) \<noteq> None"
proof -
  have s: "s = b @ ''/spreadsheets/d/'' @ i @ t" and i: "i \<noteq> []" "list_all id_char i"
    using assms by (simp_all add: segment_at_def)
  show "length b < Suc (length s)" by (subst s) simp
  have "drop (length b) s = ''/spreadsheets/d/'' @ i @ t" by (subst s) simp
  then show "match_here (drop (length b) s) \<noteq> None"
    using match_here_complete [OF i] by simp
qed

lemma match_gives_segment:
  assumes "n \<le> length s" and "match_here (drop n s) = Some g"
  shows "\<exists>rest. segment_at s (take n s) g rest \<and> (rest = [] \<or> \<not> id_char (hd rest))"
proof -
  obtain rest where r: "drop n s = ''/spreadsheets/d/'' @ g @ rest" "g \<noteq> []"
    "list_all id_char g" "rest = [] \<or> \<not> id_char (hd rest)"
    using match_here_sound [OF assms(2)] by blast
  have "s = take n s @ drop n s" by simp
  then have "s = take n s @ ''/spreadsheets/d/'' @ g @ rest" using r(1) by simp
  then have "segment_at s (take n s) g rest" using r(2,3) unfolding segment_at_def by blast
  then show ?thesis using r(4) by blast
qed

lemma parseSheetId_url:
  "parseSheetId ''https://docs.google.com/spreadsheets/d/AAAABBBBCCCCDDDD/edit#gid=0'' =
     ''AAAABBBBCCCCDDDD''"
  by (simp add: parseSheetId_def match_here_def id_char_def)

lemma parseSheetId_bare: "parseSheetId ''AAAABBBBCCCCDDDD'' = ''AAAABBBBCCCCDDDD''"
  by (simp add: parseSheetId_def match_here_def id_char_def)

text \<open>
  Claim C6. \<open>parseSheetId\<close> is a total function of its input string. When the
  input contains a segment \<^verbatim>\<open>/spreadsheets/d/<id>\<close> with a non-empty identifier
  over letters, digits, hyphen and underscore, the result is the identifier
  captured there: that of the leftmost such segment, taken as far as identifier
  characters go. When the input contains no such segment, the result is the input
  itself. No input gives an error.
\<close>

theorem parseSheetId_extracts_identifier:
  "((\<exists>before ident rest. segment_at s before ident rest) \<longrightarrow>
      (\<exists>before ident rest.
          segment_at s before ident rest
          \<and> (rest = [] \<or> \<not> id_char (hd rest))
          \<and> (\<forall>b i t. segment_at s b i t \<longrightarrow> length before \<le> length b)
          \<and> parseSheetId s = ident))
   \<and> (\<not> (\<exists>before ident rest. segment_at s before ident rest) \<longrightarrow> parseSheetId s = s)"
proof (intro conjI impI)
  assume "\<exists>before ident rest. segment_at s before ident rest"
  then obtain b0 i0 t0 where seg: "segment_at s b0 i0 t0" by blast
  have "\<not> (\<forall>n < Suc (length s). match_here (drop n s) = None)"
    using segment_matches [OF seg] by (auto intro: exI [of _ "length b0"])
  then have "regex_match s \<noteq> None"
    by (simp only: regex_match_None not_False_eq_True)
  then obtain g where g: "regex_match s = Some g" by auto
  then obtain n where n: "n \<le> length s" "match_here (drop n s) = Some g"
    and least: "\<forall>m < n. match_here (drop m s) = None"
    using regex_match_Some by blast
  obtain rest where 1: "segment_at s (take n s) g rest"
    and stop: "rest = [] \<or> \<not> id_char (hd rest)"
    using match_gives_segment [OF n] by blast
  have len: "length (take n s) = n" using n(1) by simp
  have 2: "\<forall>b i t. segment_at s b i t \<longrightarrow> length (take n s) \<le> length b"
  proof (intro allI impI)
    fix b i t assume s': "segment_at s b i t"
    show "length (take n s) \<le> length b"
    proof (rule ccontr)
      assume "\<not> length (take n s) \<le> length b"
      then have "length b < n" using len by simp
      then have "match_here (drop (length b) s) = None" using least by blast
      then show False using segment_matches(2) [OF s'] by simp
    qed
  qed
  have "g \<noteq> []" using 1 by (simp add: segment_at_def)
  then have 3: "parseSheetId s = g"
    using g by (simp add: parseSheetId_def)
  show "\<exists>before ident rest.
          segment_at s before ident rest
          \<and> (rest = [] \<or> \<not> id_char (hd rest))
          \<and> (\<forall>b i t. segment_at s b i t \<longrightarrow> length before \<le> length b)
          \<and> parseSheetId s = ident"
    by (intro exI [of _ "take n s"] exI [of _ g] exI [of _ rest] conjI 1 stop 2 3)
next
  assume no: "\<not> (\<exists>before ident rest. segment_at s before ident rest)"
  have "regex_match s = None"
  proof (rule ccontr)
    assume "regex_match s \<noteq> None"
    then obtain g where "regex_match s = Some g" by auto
    then obtain n where "n \<le> length s" "match_here (drop n s) = Some g"
      using regex_match_Some by blast
    then obtain rest where "segment_at s (take n s) g rest"
      using match_gives_segment by blast
    with no show False by blast
  qed
  then show "parseSheetId s = s" by (simp add: parseSheetId_def)
qed

theorem parseSheetId_extracts_identifier_witness:
  "segment_at ''https://docs.google.com/spreadsheets/d/AAAABBBBCCCCDDDD/edit#gid=0''
     ''https://docs.google.com'' ''AAAABBBBCCCCDDDD'' ''/edit#gid=0''
   \<and> parseSheetId ''https://docs.google.com/spreadsheets/d/AAAABBBBCCCCDDDD/edit#gid=0'' =
       ''AAAABBBBCCCCDDDD''
   \<and> \<not> (\<exists>before ident rest. segment_at ''AAAABBBBCCCCDDDD'' before ident rest)
   \<and> parseSheetId ''AAAABBBBCCCCDDDD'' = ''AAAABBBBCCCCDDDD''"
proof -
  let ?url = "''https://docs.google.com/spreadsheets/d/AAAABBBBCCCCDDDD/edit#gid=0''"
  let ?bare = "''AAAABBBBCCCCDDDD''"
  have seg: "segment_at ?url ''https://docs.google.com'' ''AAAABBBBCCCCDDDD'' ''/edit#gid=0''"
    by (simp add: segment_at_def id_char_def)
  then have "\<exists>before ident rest. segment_at ?url before ident rest" by blast
  then have u: "\<exists>before ident rest. segment_at ?url before ident rest
          \<and> (rest = [] \<or> \<not> id_char (hd rest))
          \<and> (\<forall>b i t. segment_at ?url b i t \<longrightarrow> length before \<le> length b)
          \<and> parseSheetId ?url = ident"
    using parseSheetId_extracts_identifier [of ?url] by blast
  have no: "\<not> (\<exists>before ident rest. segment_at ?bare before ident rest)"
  proof
    assume "\<exists>before ident rest. segment_at ?bare before ident rest"
    then obtain b i t where "?bare = b @ ''/spreadsheets/d/'' @ i @ t" and "i \<noteq> []"
      unfolding segment_at_def by blast
    then have "length ?bare = length (b @ ''/spreadsheets/d/'' @ i @ t)" and "0 < length i"
      by simp_all
    then show False by simp
  qed
  then have "parseSheetId ?bare = ?bare"
    using parseSheetId_extracts_identifier [of ?bare] by blast
  then show ?thesis using u seg no parseSheetId_url by simp
qed

subsection \<open>Credentials and the factory\<close>

lemma credentials_explicit:
  assumes "truthy (clientEmail options)" and "truthy (privateKey options)"
  shows "getServiceAccountCredentials h options =
     ([], Inr \<lparr>client_email = the (clientEmail options), private_key = the (privateKey options)\<rparr>)"
  using assms
  by (auto simp: getServiceAccountCredentials_def truthy_def Let_def split: option.splits)

lemma credentials_from_file:
  assumes "\<not> (truthy (clientEmail options) \<and> truthy (privateKey options))"
    and "serviceAccountCredentials options = Some p"
  shows "getServiceAccountCredentials h options =
     (case files h (path_resolve h p) of
        None \<Rightarrow>
          ([ExistsSync (path_resolve h p)],
           Inl (Error (''Cannot find valid service account credentials. '' @
             ''Provide either (clientEmail, privateKey) or a valid serviceAccountCredentials file.'')))
      | Some (Inl e) \<Rightarrow> ([ExistsSync (path_resolve h p), ReadFileSync (path_resolve h p)], Inl e)
      | Some (Inr credentialsJson) \<Rightarrow>
          ([ExistsSync (path_resolve h p), ReadFileSync (path_resolve h p)],
           JSON_parse h credentialsJson))"
  using assms
  by (auto simp: getServiceAccountCredentials_def truthy_def Let_def split: option.splits)

lemma example_options_fields:
  "sheetId (example_options i e k) = i" "clientEmail (example_options i e k) = e"
  "privateKey (example_options i e k) = k"
  "serviceAccountCredentials (example_options i e k) = Some ''/etc/sa.json''"
  "sheetName (example_options i e k) = None" "startX (example_options i e k) = None"
  "startY (example_options i e k) = None"
  by (simp_all add: example_options_def)

lemma example_host_fields:
  "env (example_host fs) = (\<lambda>n. None)" "path_resolve (example_host fs) = (\<lambda>p. p)"
  "files (example_host fs) = fs"
  "JSON_parse (example_host fs) =
     (\<lambda>t. Inr \<lparr>client_email = ''file@example.org'', private_key = ''filekey''\<rparr>)"
  by (simp_all add: example_host_def)

text \<open>
  Claim C8. Whenever an explicit e-mail address and an explicit key are both
  given (both non-empty), \<open>getServiceAccountCredentials\<close> returns exactly this pair
  and touches no file: this holds for every host and every credentials path, so
  also when a credentials file is supplied and exists.
\<close>

theorem explicit_pair_precedes_file:
  assumes "clientEmail options = Some e" and "e \<noteq> []"
    and "privateKey options = Some k" and "k \<noteq> []"
  shows "getServiceAccountCredentials h options =
           ([], Inr \<lparr>client_email = e, private_key = k\<rparr>)"
  using assms credentials_explicit [of options h] by (simp add: truthy_def)

theorem explicit_pair_precedes_file_witness:
  "getServiceAccountCredentials (example_host [''/etc/sa.json'' \<mapsto> Inr ''{}''])
     \<lparr>clientEmail = Some ''bot@example.org'', privateKey = Some ''key'',
      serviceAccountCredentials = Some ''/etc/sa.json''\<rparr>
   = ([], Inr \<lparr>client_email = ''bot@example.org'', private_key = ''key''\<rparr>)
   \<and> getServiceAccountCredentials (example_host [''/etc/sa.json'' \<mapsto> Inr ''{}''])
     \<lparr>clientEmail = None, privateKey = Some ''key'',
      serviceAccountCredentials = Some ''/etc/sa.json''\<rparr>
   = ([ExistsSync ''/etc/sa.json'', ReadFileSync ''/etc/sa.json''],
      Inr \<lparr>client_email = ''file@example.org'', private_key = ''filekey''\<rparr>)"
proof -
  have "getServiceAccountCredentials (example_host [''/etc/sa.json'' \<mapsto> Inr ''{}''])
     \<lparr>clientEmail = None, privateKey = Some ''key'',
      serviceAccountCredentials = Some ''/etc/sa.json''\<rparr>
   = ([ExistsSync ''/etc/sa.json'', ReadFileSync ''/etc/sa.json''],
      Inr \<lparr>client_email = ''file@example.org'', private_key = ''filekey''\<rparr>)"
    by (simp add: getServiceAccountCredentials_def example_host_def Let_def)
  then show ?thesis
    using explicit_pair_precedes_file [of
        "\<lparr>clientEmail = Some ''bot@example.org'', privateKey = Some ''key'',
          serviceAccountCredentials = Some ''/etc/sa.json''\<rparr>"
        "''bot@example.org''" "''key''" "example_host [''/etc/sa.json'' \<mapsto> Inr ''{}'']"]
    by simp
qed

text \<open>
  Claim C9. The factory fails before it sends anything to the service (the
  service is returned as it was, with no request recorded) in each of these
  cases: there is no document identifier, neither as option nor in the
  environment; or there is one, but no complete explicit pair and no file at the
  credentials path; or there is a file at that path and reading it raises an
  error. In the first two cases the error is the configuration error the code
  throws itself, in the third the error of the read. The factory is an
  asynchronous function: its error is its result, here a value.
\<close>

theorem factory_fails_before_remote_call:
  "(\<not> truthy (default_to (sheetId options) (env h ''SHEET_ID'')) \<longrightarrow>
      createKeyValueStore L h options r =
        (Inl (Error ''No SHEET_ID found. Provide it via options or .env.''), r))
   \<and> (truthy (default_to (sheetId options) (env h ''SHEET_ID''))
       \<and> \<not> (truthy (default_to (clientEmail options) (env h ''GOOGLE_CLIENT_EMAIL''))
              \<and> truthy (default_to (privateKey options) (env h ''GOOGLE_PRIVATE_KEY'')))
       \<and> files h (path_resolve h
             (case serviceAccountCredentials options of
                None \<Rightarrow> or_else (env h ''SERVICE_ACCOUNT_CREDENTIALS'') ''./service_account.json''
              | Some v \<Rightarrow> v)) = None \<longrightarrow>
      createKeyValueStore L h options r =
        (Inl (Error (''Cannot find valid service account credentials. '' @
           ''Provide either (clientEmail, privateKey) or a valid serviceAccountCredentials file.'')),
         r))
   \<and> (truthy (default_to (sheetId options) (env h ''SHEET_ID''))
       \<and> \<not> (truthy (default_to (clientEmail options) (env h ''GOOGLE_CLIENT_EMAIL''))
              \<and> truthy (default_to (privateKey options) (env h ''GOOGLE_PRIVATE_KEY'')))
       \<and> files h (path_resolve h
             (case serviceAccountCredentials options of
                None \<Rightarrow> or_else (env h ''SERVICE_ACCOUNT_CREDENTIALS'') ''./service_account.json''
              | Some v \<Rightarrow> v)) = Some (Inl e) \<longrightarrow>
      createKeyValueStore L h options r = (Inl e, r))"
proof (intro conjI impI)
  assume "\<not> truthy (default_to (sheetId options) (env h ''SHEET_ID''))"
  then show "createKeyValueStore L h options r =
        (Inl (Error ''No SHEET_ID found. Provide it via options or .env.''), r)"
    by (auto simp: createKeyValueStore_def truthy_def Let_def split: option.splits)
next
  let ?p = "case serviceAccountCredentials options of
                None \<Rightarrow> or_else (env h ''SERVICE_ACCOUNT_CREDENTIALS'') ''./service_account.json''
              | Some v \<Rightarrow> v"
  let ?o = "\<lparr>clientEmail = default_to (clientEmail options) (env h ''GOOGLE_CLIENT_EMAIL''),
             privateKey = default_to (privateKey options) (env h ''GOOGLE_PRIVATE_KEY''),
             serviceAccountCredentials = Some ?p\<rparr>"
  assume a: "truthy (default_to (sheetId options) (env h ''SHEET_ID''))
       \<and> \<not> (truthy (default_to (clientEmail options) (env h ''GOOGLE_CLIENT_EMAIL''))
              \<and> truthy (default_to (privateKey options) (env h ''GOOGLE_PRIVATE_KEY'')))
       \<and> files h (path_resolve h ?p) = None"
  then obtain i where i: "default_to (sheetId options) (env h ''SHEET_ID'') = Some i" "i \<noteq> []"
    by (auto simp: truthy_def split: option.splits)
  have "snd (getServiceAccountCredentials h ?o) =
        Inl (Error (''Cannot find valid service account credentials. '' @
           ''Provide either (clientEmail, privateKey) or a valid serviceAccountCredentials file.''))"
    using a by (subst credentials_from_file [where p = ?p]) simp_all
  then show "createKeyValueStore L h options r =
        (Inl (Error (''Cannot find valid service account credentials. '' @
           ''Provide either (clientEmail, privateKey) or a valid serviceAccountCredentials file.'')),
         r)"
    using i by (simp add: createKeyValueStore_def Let_def)
next
  let ?p = "case serviceAccountCredentials options of
                None \<Rightarrow> or_else (env h ''SERVICE_ACCOUNT_CREDENTIALS'') ''./service_account.json''
              | Some v \<Rightarrow> v"
  let ?o = "\<lparr>clientEmail = default_to (clientEmail options) (env h ''GOOGLE_CLIENT_EMAIL''),
             privateKey = default_to (privateKey options) (env h ''GOOGLE_PRIVATE_KEY''),
             serviceAccountCredentials = Some ?p\<rparr>"
  assume a: "truthy (default_to (sheetId options) (env h ''SHEET_ID''))
       \<and> \<not> (truthy (default_to (clientEmail options) (env h ''GOOGLE_CLIENT_EMAIL''))
              \<and> truthy (default_to (privateKey options) (env h ''GOOGLE_PRIVATE_KEY'')))
       \<and> files h (path_resolve h ?p) = Some (Inl e)"
  then obtain i where i: "default_to (sheetId options) (env h ''SHEET_ID'') = Some i" "i \<noteq> []"
    by (auto simp: truthy_def split: option.splits)
  have "snd (getServiceAccountCredentials h ?o) = Inl e"
    using a by (subst credentials_from_file [where p = ?p]) simp_all
  then show "createKeyValueStore L h options r = (Inl e, r)"
    using i by (simp add: createKeyValueStore_def Let_def)
qed

theorem factory_fails_before_remote_call_witness:
  "createKeyValueStore example_builtins (example_host Map.empty)
      (example_options None (Some ''bot@example.org'') (Some ''key'')) (reliable_remote Map.empty)
     = (Inl (Error ''No SHEET_ID found. Provide it via options or .env.''),
        reliable_remote Map.empty)
   \<and> createKeyValueStore example_builtins (example_host Map.empty)
      (example_options (Some ''doc'') None None) (reliable_remote Map.empty)
     = (Inl (Error (''Cannot find valid service account credentials. '' @
           ''Provide either (clientEmail, privateKey) or a valid serviceAccountCredentials file.'')),
        reliable_remote Map.empty)
   \<and> createKeyValueStore example_builtins (example_host [''/etc/sa.json'' \<mapsto> Inl (Raised ''EACCES'')])
      (example_options (Some ''doc'') None None) (reliable_remote Map.empty)
     = (Inl (Raised ''EACCES''), reliable_remote Map.empty)
   \<and> requests (reliable_remote Map.empty) = []"
  using factory_fails_before_remote_call [where options = "example_options None (Some ''bot@example.org'') (Some ''key'')"
      and h = "example_host Map.empty" and r = "reliable_remote Map.empty" and L = example_builtins]
    factory_fails_before_remote_call [where options = "example_options (Some ''doc'') None None"
      and h = "example_host Map.empty" and r = "reliable_remote Map.empty" and L = example_builtins]
    factory_fails_before_remote_call [where options = "example_options (Some ''doc'') None None"
      and h = "example_host [''/etc/sa.json'' \<mapsto> Inl (Raised ''EACCES'')]"
      and r = "reliable_remote Map.empty" and e = "Raised ''EACCES''" and L = example_builtins]
  by (simp add: example_options_fields example_host_fields truthy_def default_to_def
      reliable_remote_def)

subsection \<open>The accessor wrapper\<close>

lemma in_target_data_update [simp]: "in_target p (t\<lparr>priv_data := d\<rparr>) = in_target p t"
  by (simp add: in_target_def)

lemma field_names_in_target: "p \<in> set field_names \<Longrightarrow> in_target p t"
  by (simp add: in_target_def)

lemma method_names_in_target: "p \<in> set class_prototype_names \<Longrightarrow> in_target p t"
  by (simp add: in_target_def)

lemma not_in_target_not_proto: "\<not> in_target p t \<Longrightarrow> p \<noteq> ''__proto__''"
  by (auto simp: in_target_def Object_prototype_names_def)

lemma Reflect_get_data_update:
  "p \<noteq> ''_data'' \<Longrightarrow> Reflect_get p (t\<lparr>priv_data := d\<rparr>) = Reflect_get p t"
  by (simp add: Reflect_get_def)

lemma Reflect_get_method:
  assumes "p \<in> set class_prototype_names" and "p \<notin> set (map fst (own_extra t))"
  shows "Reflect_get p t = Class_member p"
  using assms by (auto simp: Reflect_get_def class_prototype_names_def)

lemma Reflect_set_data:
  "priv_data (Reflect_set p v t) = (if p = ''_data'' then Replaced v else priv_data t)"
  by (simp add: Reflect_set_def)

lemma Reflect_set_proto:
  "''__proto__'' \<notin> set (map fst (own_extra t)) \<Longrightarrow> Reflect_set ''__proto__'' v t = t"
  by (simp add: Reflect_set_def Object_prototype_names_def class_prototype_names_def)

lemma key_define_own: "k \<in> fst ` set (define_own ps k v)"
  using define_own_member [of k v ps] by force

lemma own_names_Reflect_set:
  "fst ` set (own_extra t) \<subseteq> fst ` set (own_extra (Reflect_set p v t))"
  using keys_define_own [of "own_extra t" p v] by (simp add: Reflect_set_def) blast

lemma Reflect_set_method:
  assumes "p \<in> set class_prototype_names"
  shows "Reflect_set p v t = t\<lparr>own_extra := define_own (own_extra t) p v\<rparr>"
  using assms by (auto simp: Reflect_set_def class_prototype_names_def)

lemma Reflect_set_in_target:
  "in_target p t \<Longrightarrow> in_target p (Reflect_set p v t)"
  using own_names_Reflect_set [of t p v] by (auto simp: in_target_def)

text \<open>
  A value assigned through \<^verbatim>\<open>Reflect.set\<close> under a name other than \<^verbatim>\<open>__proto__\<close> is
  what \<^verbatim>\<open>Reflect.get\<close> returns under that name afterwards.
\<close>

lemma Reflect_get_Reflect_set:
  assumes "p \<noteq> ''__proto__''"
  shows "Reflect_get p (Reflect_set p v t) = Value v"
  using assms unfolding Reflect_get_def Reflect_set_def
  by (simp add: get_own_define_own key_define_own)

lemma entry_row_in_save_rows:
  assumes "(k, v) \<in> set obj"
  shows "[JString k, v] \<in> set (map (\<lambda>(k, v). [JString k, v]) (Object_entries obj))"
proof -
  have "(k, v) \<in> set (Object_entries obj)" using assms by (simp add: set_Object_entries)
  then have "(\<lambda>(k, v). [JString k, v]) (k, v) \<in> (\<lambda>(k, v). [JString k, v]) ` set (Object_entries obj)"
    by (rule imageI)
  then show ?thesis by simp
qed

text \<open>
  Once \<^verbatim>\<open>_data\<close> has been replaced by \<^verbatim>\<open>undefined\<close>, a get or a set of a name that is
  not on the adapter raises; once it has been replaced by another value, such a
  set changes nothing.
\<close>

lemma wrapper_after_data_replaced:
  assumes "\<not> in_target p t" and "priv_data t = Replaced w"
  shows "w = JUndefined \<Longrightarrow> wrapper_set p v t = Inl (Raised ''TypeError'')"
    and "w = JUndefined \<Longrightarrow> wrapper_get L p t = Inl (Raised ''TypeError'')"
    and "w \<noteq> JUndefined \<Longrightarrow> wrapper_set p v t = Inr t"
  using assms by (simp_all add: wrapper_set_def wrapper_get_def)

text \<open>
  Claim C7, as amended. Property names are strings, assigned values are
  \<^verbatim>\<open>undefined\<close>, booleans, numbers and strings. A name found on the adapter (an
  internal field, a method, another inherited member, or an own property the
  adapter has acquired) is served by the adapter object and not by the mapping:
  a get of a name other than \<^verbatim>\<open>_data\<close> returns the same member whatever \<^verbatim>\<open>_data\<close>
  holds, and a method name that no own property hides returns the method. A set
  of such a name succeeds and is carried out on the adapter: for every name
  other than \<^verbatim>\<open>__proto__\<close> the next get of the name returns the assigned value (so
  an assignment to a method name hides the method), for the inherited accessor
  \<^verbatim>\<open>__proto__\<close> the adapter is unchanged; \<^verbatim>\<open>_data\<close> holds the assigned value in place of the mapping when
  the name is \<^verbatim>\<open>_data\<close>, and is left as it is for every other name. For a name not
  found on the adapter, and as long as \<^verbatim>\<open>_data\<close> holds the mapping object, a set
  lands in the mapping, is visible on the next get, and its row is among the
  rows that the next successful \<open>save\<close> writes.
\<close>

theorem wrapper_precedence:
  "(in_target p t \<and> p \<noteq> ''_data'' \<longrightarrow>
      wrapper_get L p (t\<lparr>priv_data := d\<rparr>) = wrapper_get L p t)
   \<and> (p \<in> set class_prototype_names \<and> p \<notin> set (map fst (own_extra t)) \<longrightarrow>
        wrapper_get L p t = Inr (Class_member p))
   \<and> (in_target p t \<longrightarrow>
        (\<exists>t'. wrapper_set p v t = Inr t'
           \<and> (p \<noteq> ''__proto__'' \<longrightarrow> wrapper_get L p t' = Inr (Value v))
           \<and> (p = ''__proto__'' \<and> p \<notin> set (map fst (own_extra t)) \<longrightarrow> t' = t)
           \<and> priv_data t' = (if p = ''_data'' then Replaced v else priv_data t)))
   \<and> (\<not> in_target p t \<and> priv_data t = Held obj \<longrightarrow>
        wrapper_set p v t = Inr (t\<lparr>priv_data := Held (assign_property obj p v)\<rparr>)
        \<and> wrapper_get L p (t\<lparr>priv_data := Held (assign_property obj p v)\<rparr>) = Inr (Value v)
        \<and> (save L (t\<lparr>priv_data := Held (assign_property obj p v)\<rparr>) r = (None, r') \<longrightarrow>
             (\<exists>a i rg rows. requests r' = requests r @ [Clear a i rg, Update a i rg ''RAW'' rows]
                           \<and> [JString p, v] \<in> set rows)))"
proof (intro conjI impI)
  assume "in_target p t \<and> p \<noteq> ''_data''"
  then show "wrapper_get L p (t\<lparr>priv_data := d\<rparr>) = wrapper_get L p t"
    by (simp add: wrapper_get_def Reflect_get_data_update)
next
  assume m: "p \<in> set class_prototype_names \<and> p \<notin> set (map fst (own_extra t))"
  then show "wrapper_get L p t = Inr (Class_member p)"
    by (simp add: wrapper_get_def method_names_in_target Reflect_get_method)
next
  assume i: "in_target p t"
  let ?s = "Reflect_set p v t"
  have 1: "wrapper_set p v t = Inr ?s" using i by (simp add: wrapper_set_def)
  have 2: "p \<noteq> ''__proto__'' \<longrightarrow> wrapper_get L p ?s = Inr (Value v)"
    using Reflect_set_in_target [OF i, of v]
    by (simp add: wrapper_get_def Reflect_get_Reflect_set)
  have 3: "p = ''__proto__'' \<and> p \<notin> set (map fst (own_extra t)) \<longrightarrow> ?s = t"
    using Reflect_set_proto [of t v] by blast
  have 4: "priv_data ?s = (if p = ''_data'' then Replaced v else priv_data t)"
    by (rule Reflect_set_data)
  show "\<exists>t'. wrapper_set p v t = Inr t'
           \<and> (p \<noteq> ''__proto__'' \<longrightarrow> wrapper_get L p t' = Inr (Value v))
           \<and> (p = ''__proto__'' \<and> p \<notin> set (map fst (own_extra t)) \<longrightarrow> t' = t)
           \<and> priv_data t' = (if p = ''_data'' then Replaced v else priv_data t)"
    using 1 2 3 4 by (intro exI [of _ ?s] conjI)
next
  assume "\<not> in_target p t \<and> priv_data t = Held obj"
  then show "wrapper_set p v t = Inr (t\<lparr>priv_data := Held (assign_property obj p v)\<rparr>)"
    by (simp add: wrapper_set_def)
next
  assume n: "\<not> in_target p t \<and> priv_data t = Held obj"
  then have "p \<noteq> ''__proto__''" using not_in_target_not_proto by blast
  then show "wrapper_get L p (t\<lparr>priv_data := Held (assign_property obj p v)\<rparr>) = Inr (Value v)"
    using n by (simp add: wrapper_get_def assign_property_def get_own_define_own)
next
  let ?t = "t\<lparr>priv_data := Held (assign_property obj p v)\<rparr>"
  let ?rg = "range_formula L (priv_sheetName ?t) (priv_startX ?t) (priv_startY ?t)"
  assume n: "\<not> in_target p t \<and> priv_data t = Held obj" and s: "save L ?t r = (None, r')"
  have h: "priv_data ?t = Held (assign_property obj p v)" by simp
  have "p \<noteq> ''__proto__''" using n not_in_target_not_proto by blast
  then have "(p, v) \<in> set (assign_property obj p v)"
    by (simp add: assign_property_def define_own_member)
  then have "[JString p, v] \<in> set (map (\<lambda>(k, v). [JString k, v])
      (Object_entries (assign_property obj p v)))"
    by (rule entry_row_in_save_rows)
  moreover have "requests r' = requests r @
      [Clear (priv_authClient ?t) (priv_sheetId ?t) ?rg,
       Update (priv_authClient ?t) (priv_sheetId ?t) ?rg
         ''RAW'' (map (\<lambda>(k, v). [JString k, v]) (Object_entries (assign_property obj p v)))]"
    by (subst save_success(3) [OF s h]) simp
  ultimately show "\<exists>a i rg rows. requests r' = requests r @ [Clear a i rg, Update a i rg ''RAW'' rows]
                           \<and> [JString p, v] \<in> set rows"
    by blast
qed

theorem wrapper_precedence_witness:
  "in_target ''_sheetId'' (example_store [])
   \<and> wrapper_get example_builtins ''_sheetId''
        (example_store [(''_sheetId'', JString ''entry'')]) = Inr (Value (JString ''doc''))
   \<and> ''load'' \<in> set class_prototype_names
   \<and> ''load'' \<notin> set (map fst (own_extra (example_store [])))
   \<and> wrapper_get example_builtins ''load'' (example_store []) = Inr (Class_member ''load'')
   \<and> (\<exists>t'. wrapper_set ''load'' (JNumber 5) (example_store [(''a'', JString ''1'')]) = Inr t'
         \<and> wrapper_get example_builtins ''load'' t' = Inr (Value (JNumber 5))
         \<and> priv_data t' = Held [(''a'', JString ''1'')])
   \<and> (\<exists>t'. wrapper_set ''_data'' (JString ''x'') (example_store [(''a'', JString ''1'')]) = Inr t'
         \<and> wrapper_get example_builtins ''_data'' t' = Inr (Value (JString ''x''))
         \<and> priv_data t' = Replaced (JString ''x''))
   \<and> in_target ''__proto__'' (example_store [(''a'', JString ''1'')])
   \<and> wrapper_set ''__proto__'' (JString ''x'') (example_store [(''a'', JString ''1'')]) =
       Inr (example_store [(''a'', JString ''1'')])
   \<and> \<not> in_target ''total'' (example_store [])
   \<and> priv_data (example_store []) = Held []
   \<and> wrapper_set ''total'' (JNumber 123) (example_store []) =
       Inr (example_store [(''total'', JNumber 123)])
   \<and> wrapper_get example_builtins ''total'' (example_store [(''total'', JNumber 123)]) =
       Inr (Value (JNumber 123))
   \<and> save example_builtins (example_store [(''total'', JNumber 123)]) (reliable_remote Map.empty) =
       (None, (reliable_remote
                 [(JString ''doc'', ''A1:B'') \<mapsto> [[JString ''total'', JNumber 123]]])
                \<lparr>requests := [Clear (Held example_client) (JString ''doc'') ''A1:B'',
                     Update (Held example_client) (JString ''doc'') ''A1:B'' ''RAW''
                       [[JString ''total'', JNumber 123]]]\<rparr>)
   \<and> (\<exists>a i rg rows.
         requests ((reliable_remote
                 [(JString ''doc'', ''A1:B'') \<mapsto> [[JString ''total'', JNumber 123]]])
                \<lparr>requests := [Clear (Held example_client) (JString ''doc'') ''A1:B'',
                     Update (Held example_client) (JString ''doc'') ''A1:B'' ''RAW''
                       [[JString ''total'', JNumber 123]]]\<rparr>)
           = requests (reliable_remote Map.empty) @ [Clear a i rg, Update a i rg ''RAW'' rows]
         \<and> [JString ''total'', JNumber 123] \<in> set rows)"
proof -
  let ?r' = "(reliable_remote
                 [(JString ''doc'', ''A1:B'') \<mapsto> [[JString ''total'', JNumber 123::nat jsval]]])
                \<lparr>requests := [Clear (Held example_client) (JString ''doc'') ''A1:B'',
                     Update (Held example_client) (JString ''doc'') ''A1:B'' ''RAW''
                       [[JString ''total'', JNumber 123]]]\<rparr>"
  have f: "in_target ''_sheetId'' (example_store [])"
    by (simp add: in_target_def field_names_def)
  have g: "wrapper_get example_builtins ''_sheetId'' (example_store []) =
             Inr (Value (JString ''doc''))"
    by (simp add: wrapper_get_def f Reflect_get_def example_store_fields)
  have m: "''load'' \<in> set class_prototype_names"
    by (simp add: class_prototype_names_def)
  have o: "''load'' \<notin> set (map fst (own_extra (example_store [])))"
    by (simp add: example_store_fields)
  have l: "in_target ''load'' (example_store [(''a'', JString ''1'')])"
    using m by (rule method_names_in_target)
  have d: "in_target ''_data'' (example_store [(''a'', JString ''1'')])"
    by (simp add: in_target_def field_names_def)
  have n: "\<not> in_target ''total'' (example_store [])"
    by (simp add: in_target_def field_names_def class_prototype_names_def
        Object_prototype_names_def example_store_fields)
  have h: "priv_data (example_store []) = Held []"
    by (simp add: example_store_fields)
  have e: "Object_entries [(''total'', JNumber 123::nat jsval)] = [(''total'', JNumber 123)]"
    by (simp add: Object_entries_def is_array_index_def)
  have s: "save example_builtins (example_store [(''total'', JNumber 123)])
             (reliable_remote Map.empty) = (None, ?r')"
    by (simp add: save_range call_def Let_def example_store_fields reliable_remote_def
        example_range data_entries_def e)
  have a: "assign_property [] ''total'' (JNumber 123::nat jsval) = [(''total'', JNumber 123)]"
    by (simp add: assign_property_def)
  have 1: "wrapper_get example_builtins ''_sheetId''
        (example_store [(''_sheetId'', JString ''entry'')]) = Inr (Value (JString ''doc''))"
    using f g wrapper_precedence [where L = example_builtins and p = "''_sheetId''"
        and t = "example_store []" and d = "Held [(''_sheetId'', JString ''entry'')]"]
    by (simp add: example_store_update)
  have 2: "wrapper_get example_builtins ''load'' (example_store []) = Inr (Class_member ''load'')"
    using m o wrapper_precedence [where L = example_builtins and p = "''load''"
        and t = "example_store []"]
    by simp
  have 3: "\<exists>t'. wrapper_set ''load'' (JNumber 5) (example_store [(''a'', JString ''1'')]) = Inr t'
         \<and> wrapper_get example_builtins ''load'' t' = Inr (Value (JNumber 5))
         \<and> priv_data t' = Held [(''a'', JString ''1'')]"
    using l wrapper_precedence [where L = example_builtins and p = "''load''"
        and t = "example_store [(''a'', JString ''1'')]" and v = "JNumber 5"]
    by (simp add: example_store_fields)
  have 4: "\<exists>t'. wrapper_set ''_data'' (JString ''x'') (example_store [(''a'', JString ''1'')]) = Inr t'
         \<and> wrapper_get example_builtins ''_data'' t' = Inr (Value (JString ''x''))
         \<and> priv_data t' = Replaced (JString ''x'')"
    using d wrapper_precedence [where L = example_builtins and p = "''_data''"
        and t = "example_store [(''a'', JString ''1'')]" and v = "JString ''x''"]
    by simp
  have q: "in_target ''__proto__'' (example_store [(''a'', JString ''1'')])"
    by (simp add: in_target_def Object_prototype_names_def)
  have 6: "wrapper_set ''__proto__'' (JString ''x'') (example_store [(''a'', JString ''1'')]) =
       Inr (example_store [(''a'', JString ''1'')])"
    using q wrapper_precedence [where L = example_builtins and p = "''__proto__''"
        and t = "example_store [(''a'', JString ''1'')]" and v = "JString ''x''"]
    by (auto simp: example_store_fields)
  have 5: "wrapper_set ''total'' (JNumber 123) (example_store []) =
       Inr (example_store [(''total'', JNumber 123)])
     \<and> wrapper_get example_builtins ''total'' (example_store [(''total'', JNumber 123)]) =
       Inr (Value (JNumber 123))
     \<and> (\<exists>a i rg rows.
         requests ?r' = requests (reliable_remote Map.empty) @ [Clear a i rg, Update a i rg ''RAW'' rows]
         \<and> [JString ''total'', JNumber 123] \<in> set rows)"
    using n h s wrapper_precedence [where L = example_builtins and p = "''total''"
        and t = "example_store []" and obj = "[]" and v = "JNumber 123"
        and r = "reliable_remote Map.empty" and r' = ?r']
    by (simp add: example_store_update a)
  show ?thesis
    using f m o n h s q 1 2 3 4 5 6 by (intro conjI) simp_all
qed

text \<open>
  Claim C7 as stated says that assigning to a method name does not overwrite the
  method, and that a set of every other name lands in the mapping. On a fresh
  adapter \<^verbatim>\<open>store.save\<close> is the method; after \<^verbatim>\<open>store.save = "x"\<close> the adapter has an
  own property \<^verbatim>\<open>save\<close> and \<^verbatim>\<open>store.save\<close> is the string. The name \<^verbatim>\<open>_data\<close> is an
  internal field: \<^verbatim>\<open>store._data = undefined\<close> is carried out on the adapter, and
  afterwards \<^verbatim>\<open>store.total = "5"\<close>, a name that is not on the adapter, raises a
  \<^verbatim>\<open>TypeError\<close> and nothing lands anywhere.
\<close>

theorem wrapper_set_shadows_method:
  "wrapper_get example_builtins ''save'' (example_store []) = Inr (Class_member ''save'')
   \<and> wrapper_set ''save'' (JString ''x'') (example_store []) =
       Inr ((example_store [])\<lparr>own_extra := [(''save'', JString ''x'')]\<rparr>)
   \<and> wrapper_get example_builtins ''save''
        ((example_store [])\<lparr>own_extra := [(''save'', JString ''x'')]\<rparr>) =
       Inr (Value (JString ''x''))
   \<and> wrapper_set ''_data'' JUndefined (example_store [(''a'', JString ''1'')]) =
       Inr ((example_store [(''a'', JString ''1'')])\<lparr>priv_data := Replaced JUndefined\<rparr>)
   \<and> \<not> in_target ''total'' ((example_store [(''a'', JString ''1'')])\<lparr>priv_data := Replaced JUndefined\<rparr>)
   \<and> wrapper_set ''total'' (JString ''5'')
        ((example_store [(''a'', JString ''1'')])\<lparr>priv_data := Replaced JUndefined\<rparr>) =
       Inl (Raised ''TypeError'')"
  by (simp add: wrapper_get_def wrapper_set_def in_target_def Reflect_get_def Reflect_set_def
      field_names_def class_prototype_names_def Object_prototype_names_def example_store_fields
      get_own_def)

end
